theory Spec2Isabelle
  imports Complex_Main "HOL-Library.AList"
begin

section \<open>JavaScript values and string helpers\<close>

text \<open>
  A thrown JavaScript \<^verbatim>\<open>Error\<close> is its message. A function that can throw returns
  \<open>error + 'a\<close>, \<open>Inl\<close> the error. Strings are ASCII: \<^verbatim>\<open>trim\<close>, \<^verbatim>\<open>toLowerCase\<close>,
  \<^verbatim>\<open>toUpperCase\<close> and the regular-expression classes act on ASCII characters.
\<close>

datatype error = Error string

fun error_message :: "error \<Rightarrow> string" where
  "error_message (Error m) = m"

definition char_code :: "char \<Rightarrow> nat" where
  "char_code c = of_char c"

definition is_upper :: "char \<Rightarrow> bool" where
  "is_upper c = (65 \<le> char_code c \<and> char_code c \<le> 90)"

definition is_lower :: "char \<Rightarrow> bool" where
  "is_lower c = (97 \<le> char_code c \<and> char_code c \<le> 122)"

definition is_digit :: "char \<Rightarrow> bool" where
  "is_digit c = (48 \<le> char_code c \<and> char_code c \<le> 57)"

text \<open>The class \<^verbatim>\<open>\s\<close> on ASCII: tab, line feed, vertical tab, form feed, carriage return, space.\<close>

definition is_space :: "char \<Rightarrow> bool" where
  "is_space c = (char_code c \<in> {9, 10, 11, 12, 13, 32})"

definition to_lower :: "char \<Rightarrow> char" where
  "to_lower c = (if is_upper c then char_of (char_code c + 32) else c)"

definition to_upper :: "char \<Rightarrow> char" where
  "to_upper c = (if is_lower c then char_of (char_code c - 32) else c)"

definition toLowerCase :: "string \<Rightarrow> string" where
  "toLowerCase s = map to_lower s"

definition toUpperCase :: "string \<Rightarrow> string" where
  "toUpperCase s = map to_upper s"

definition trim :: "string \<Rightarrow> string" where
  "trim s = rev (dropWhile is_space (rev (dropWhile is_space s)))"

text \<open>\<^verbatim>\<open>s.startsWith(p)\<close> and \<^verbatim>\<open>s.includes(p)\<close>.\<close>

fun startsWith :: "string \<Rightarrow> string \<Rightarrow> bool" where
  "startsWith s [] = True"
| "startsWith [] (c # p) = False"
| "startsWith (d # s) (c # p) = (d = c \<and> startsWith s p)"

fun str_includes :: "string \<Rightarrow> string \<Rightarrow> bool" where
  "str_includes [] p = (p = [])"
| "str_includes (c # s) p = (startsWith (c # s) p \<or> str_includes s p)"

text \<open>
  \<^verbatim>\<open>s.split(/\s+/)\<close>: the pieces between maximal runs of white space; a run at either
  end leaves an empty piece there, and the empty string splits into one empty piece.
\<close>

function split_ws :: "string \<Rightarrow> string list" where
  "split_ws s =
     (case dropWhile (\<lambda>c. \<not> is_space c) s of
        [] \<Rightarrow> [s]
      | c # r \<Rightarrow> takeWhile (\<lambda>c. \<not> is_space c) s # split_ws (dropWhile is_space r))"
  by pat_completeness auto
termination
proof (relation "measure length")
  show "wf (measure length)" by simp
next
  fix s :: string and c r
  assume a: "dropWhile (\<lambda>c. \<not> is_space c) s = c # r"
  have "length (dropWhile is_space r) \<le> length r"
    by (rule length_dropWhile_le)
  moreover have "length (c # r) \<le> length s"
    using length_dropWhile_le [of "\<lambda>c. \<not> is_space c" s] a by simp
  ultimately show "(dropWhile is_space r, s) \<in> measure length"
    by simp
qed

section \<open>The database schema\<close>

text \<open>
  Source: the drizzle schema (\<^verbatim>\<open>unnamed/part_005\<close>). A table is the list of its rows in
  insertion order. A uuid is a string; a timestamp is a \<open>nat\<close> clock reading; a nullable
  column is an \<open>option\<close>. The columns \<^verbatim>\<open>metadata\<close>, \<^verbatim>\<open>facilitatorId\<close>, \<^verbatim>\<open>ipHash\<close>,
  \<^verbatim>\<open>orderIndex\<close>, \<^verbatim>\<open>moderationReason\<close> and the \<^verbatim>\<open>createdAt\<close> defaults are written by no
  service function and are left out. Of a scenario only its id is kept: the services
  read scenarios, and the other tables refer to them.
\<close>

datatype session_status = Waiting | Active | Complete | Cancelled

datatype vote_type = Pull | DontPull

record config =
  timerDuration :: int
  maxParticipants :: int
  moderationEnabled :: bool
  contentWarnings :: bool

record session =
  s_id :: string
  roomCode :: string
  s_endedAt :: "nat option"
  s_config :: config
  s_status :: session_status

record participant =
  p_id :: string
  p_sessionId :: string
  fingerprint :: string
  joinedAt :: nat
  leftAt :: "nat option"
  userAgent :: "string option"
  isActive :: bool

record session_scenario =
  ss_id :: string
  ss_sessionId :: string
  ss_scenarioId :: string
  ss_status :: string
  startedAt :: "nat option"
  ss_endedAt :: "nat option"

record vote =
  v_id :: string
  v_sessionId :: string
  v_participantId :: string
  v_scenarioId :: string
  v_vote :: vote_type
  latencyMs :: "int option"

text \<open>The tables \<^verbatim>\<open>rationales\<close> and \<^verbatim>\<open>mitigations\<close> have the same columns.\<close>

record text_row =
  t_id :: string
  voteId :: string
  originalText :: string
  processedText :: "string option"
  wordCount :: "int option"
  moderated :: bool

record db =
  sessions :: "session list"
  participants :: "participant list"
  scenarios :: "string list"
  sessionScenarios :: "session_scenario list"
  votes :: "vote list"
  rationales :: "text_row list"
  mitigations :: "text_row list"

definition empty_db :: db where
  "empty_db = \<lparr>sessions = [], participants = [], scenarios = [], sessionScenarios = [],
                votes = [], rationales = [], mitigations = []\<rparr>"

subsection \<open>Inserts and their constraints\<close>

text \<open>
  An insert fails on a primary key that is taken, on a unique column that is taken
  (\<^verbatim>\<open>room_code\<close> is the only one), on a foreign key that points nowhere, and on a
  \<^verbatim>\<open>varchar(n)\<close> that is too long. The votes table has no unique constraint on
  \<^verbatim>\<open>(session_id, participant_id, scenario_id)\<close>, the participants table none on
  \<^verbatim>\<open>(session_id, fingerprint)\<close>.
\<close>

definition insert_session :: "session \<Rightarrow> db \<Rightarrow> error + db" where
  "insert_session s d =
     (if s_id s \<in> set (map s_id (sessions d))
      then Inl (Error ''duplicate key value violates unique constraint sessions_pkey'')
      else if length (roomCode s) > 6
      then Inl (Error ''value too long for type character varying(6)'')
      else if roomCode s \<in> set (map roomCode (sessions d))
      then Inl (Error ''duplicate key value violates unique constraint sessions_room_code_unique'')
      else Inr (d\<lparr>sessions := sessions d @ [s]\<rparr>))"

definition insert_participant :: "participant \<Rightarrow> db \<Rightarrow> error + db" where
  "insert_participant p d =
     (if p_id p \<in> set (map p_id (participants d))
      then Inl (Error ''duplicate key value violates unique constraint participants_pkey'')
      else if length (fingerprint p) > 255
      then Inl (Error ''value too long for type character varying(255)'')
      else if p_sessionId p \<notin> set (map s_id (sessions d))
      then Inl (Error ''insert on table participants violates foreign key constraint participants_session_id_sessions_id_fk'')
      else Inr (d\<lparr>participants := participants d @ [p]\<rparr>))"

definition insert_sessionScenario :: "session_scenario \<Rightarrow> db \<Rightarrow> error + db" where
  "insert_sessionScenario x d =
     (if ss_id x \<in> set (map ss_id (sessionScenarios d))
      then Inl (Error ''duplicate key value violates unique constraint session_scenarios_pkey'')
      else if ss_sessionId x \<notin> set (map s_id (sessions d))
      then Inl (Error ''insert on table session_scenarios violates foreign key constraint session_scenarios_session_id_sessions_id_fk'')
      else if ss_scenarioId x \<notin> set (scenarios d)
      then Inl (Error ''insert on table session_scenarios violates foreign key constraint session_scenarios_scenario_id_scenarios_id_fk'')
      else Inr (d\<lparr>sessionScenarios := sessionScenarios d @ [x]\<rparr>))"

definition insert_vote :: "vote \<Rightarrow> db \<Rightarrow> error + db" where
  "insert_vote v d =
     (if v_id v \<in> set (map v_id (votes d))
      then Inl (Error ''duplicate key value violates unique constraint votes_pkey'')
      else if v_sessionId v \<notin> set (map s_id (sessions d))
      then Inl (Error ''insert on table votes violates foreign key constraint votes_session_id_sessions_id_fk'')
      else if v_participantId v \<notin> set (map p_id (participants d))
      then Inl (Error ''insert on table votes violates foreign key constraint votes_participant_id_participants_id_fk'')
      else if v_scenarioId v \<notin> set (scenarios d)
      then Inl (Error ''insert on table votes violates foreign key constraint votes_scenario_id_scenarios_id_fk'')
      else Inr (d\<lparr>votes := votes d @ [v]\<rparr>))"

definition insert_rationale :: "text_row \<Rightarrow> db \<Rightarrow> error + db" where
  "insert_rationale r d =
     (if t_id r \<in> set (map t_id (rationales d))
      then Inl (Error ''duplicate key value violates unique constraint rationales_pkey'')
      else if voteId r \<notin> set (map v_id (votes d))
      then Inl (Error ''insert on table rationales violates foreign key constraint rationales_vote_id_votes_id_fk'')
      else Inr (d\<lparr>rationales := rationales d @ [r]\<rparr>))"

definition insert_mitigation :: "text_row \<Rightarrow> db \<Rightarrow> error + db" where
  "insert_mitigation r d =
     (if t_id r \<in> set (map t_id (mitigations d))
      then Inl (Error ''duplicate key value violates unique constraint mitigations_pkey'')
      else if voteId r \<notin> set (map v_id (votes d))
      then Inl (Error ''insert on table mitigations violates foreign key constraint mitigations_vote_id_votes_id_fk'')
      else Inr (d\<lparr>mitigations := mitigations d @ [r]\<rparr>))"

text \<open>
  The column \<^verbatim>\<open>vote\<close> is the enum \<^verbatim>\<open>vote_type\<close>; the services receive the vote as a
  string, and a string that is not a label of the enum is refused by the insert.
\<close>

definition parse_vote :: "string \<Rightarrow> error + vote_type" where
  "parse_vote s =
     (if s = ''pull'' then Inr Pull
      else if s = ''dont_pull'' then Inr DontPull
      else Inl (Error (''invalid input value for enum vote_type: '' @ s)))"

section \<open>Sanitization and room codes\<close>

text \<open>
  Source: \<^verbatim>\<open>SanitizationService\<close> (\<^verbatim>\<open>unnamed/part_004\<close>).
  \<^verbatim>\<open>sanitizeRoomCode\<close> is \<^verbatim>\<open>input.replace(/[^A-Z0-9]/gi, '').toUpperCase().substring(0, 6)\<close>
  and \<^verbatim>\<open>sanitizeFingerprint\<close> is \<^verbatim>\<open>input.replace(/[^A-Za-z0-9_-]/g, '').substring(0, 255)\<close>;
  both return the empty string on an empty input.
\<close>

definition sanitizeRoomCode :: "string \<Rightarrow> string" where
  "sanitizeRoomCode input =
     (if input = [] then []
      else take 6 (toUpperCase (filter (\<lambda>c. is_upper c \<or> is_lower c \<or> is_digit c) input)))"

definition sanitizeFingerprint :: "string \<Rightarrow> string" where
  "sanitizeFingerprint input =
     (if input = [] then []
      else take 255 (filter (\<lambda>c. is_upper c \<or> is_lower c \<or> is_digit c
                                    \<or> c = CHR ''_'' \<or> c = CHR ''-'') input))"

text \<open>
  \<^verbatim>\<open>sanitizeText(input, options)\<close>: the length limit first, then DOMPurify and
  \<^verbatim>\<open>removeDangerousPatterns\<close>, then \<^verbatim>\<open>trim\<close>. DOMPurify is a library and the patterns are
  regular expressions over markup; the two together are the parameter \<open>scrub\<close>.
  \<^verbatim>\<open>sanitizeRationale\<close> and \<^verbatim>\<open>sanitizeMitigation\<close> call it with \<^verbatim>\<open>maxLength: 500\<close>.
\<close>

definition sanitizeText :: "(string \<Rightarrow> string) \<Rightarrow> nat option \<Rightarrow> string \<Rightarrow> string" where
  "sanitizeText scrub maxLength input =
     (if input = [] then []
      else trim (scrub (case maxLength of Some n \<Rightarrow> take n input | None \<Rightarrow> input)))"

definition sanitizeRationale :: "(string \<Rightarrow> string) \<Rightarrow> string \<Rightarrow> string" where
  "sanitizeRationale scrub input = sanitizeText scrub (Some 500) input"

definition sanitizeMitigation :: "(string \<Rightarrow> string) \<Rightarrow> string \<Rightarrow> string" where
  "sanitizeMitigation scrub input = sanitizeText scrub (Some 500) input"

text \<open>
  Source: \<^verbatim>\<open>AuthService.generateSecureRoomCode\<close> (\<^verbatim>\<open>authService.ts\<close>). The random source
  is a stream \<open>rnd\<close> of the values \<^verbatim>\<open>Math.random()\<close> returns and the position \<open>pos\<close> of
  the next draw. \<^verbatim>\<open>chars[i]\<close> outside the string is \<^verbatim>\<open>undefined\<close>, which \<^verbatim>\<open>+=\<close> appends
  as the text \<^verbatim>\<open>undefined\<close>.
\<close>

definition chars :: string where
  "chars = ''ABCDEFGHJKLMNPQRSTUVWXYZ23456789''"

definition pick_char :: "real \<Rightarrow> string" where
  "pick_char r =
     (let i = \<lfloor>r * real (length chars)\<rfloor>
      in if 0 \<le> i \<and> i < int (length chars) then [chars ! nat i] else ''undefined'')"

definition generateSecureRoomCode :: "(nat \<Rightarrow> real) \<Rightarrow> nat \<Rightarrow> string \<times> nat" where
  "generateSecureRoomCode rnd pos = (concat (map (\<lambda>i. pick_char (rnd (pos + i))) [0..<6]), pos + 6)"

text \<open>
  Source: \<^verbatim>\<open>RoomService.generateRoomCode\<close> (\<^verbatim>\<open>roomService.ts\<close>):
  \<^verbatim>\<open>nanoid(6).toUpperCase()\<close>. nanoid is a library; \<open>nano\<close> is the string it returned,
  six characters of its alphabet \<^verbatim>\<open>A-Za-z0-9_-\<close>.
\<close>

definition nanoid_alphabet :: "char \<Rightarrow> bool" where
  "nanoid_alphabet c = (is_upper c \<or> is_lower c \<or> is_digit c \<or> c = CHR ''_'' \<or> c = CHR ''-'')"

definition generateRoomCode :: "string \<Rightarrow> string" where
  "generateRoomCode nano = toUpperCase nano"

section \<open>The resilience layer\<close>

text \<open>
  Source: \<^verbatim>\<open>server/src/utils/resilience.ts\<close>.

  \<^verbatim>\<open>retryWithBackoff(fn, config)\<close>. The wrapped \<open>fn\<close> is a state transformer that can
  throw; what the outside world does to its \<open>k\<close>-th invocation (a storage fault, the
  clock, a fresh uuid) is \<open>world k\<close>. The result comes with the trace of the loop: what
  each invocation of \<open>fn\<close> returned or threw, in order. The sleep between attempts
  changes no state and is not modelled.
  With \<^verbatim>\<open>maxRetries\<close> 0 the loop body never runs and \<^verbatim>\<open>lastError.message\<close> throws a
  \<^verbatim>\<open>TypeError\<close>.
\<close>

record retry_config =
  maxRetries :: nat
  initialDelay :: int
  maxDelay :: int
  factor :: int
  shouldRetry :: "error \<Rightarrow> bool"


function retry_from ::
  "retry_config \<Rightarrow> ('e \<Rightarrow> 's \<Rightarrow> (error + 'a) \<times> 's) \<Rightarrow> (nat \<Rightarrow> 'e) \<Rightarrow> nat \<Rightarrow> error option \<Rightarrow> 's
     \<Rightarrow> ((error + 'a) \<times> 's) \<times> (error + 'a) list" where
  "retry_from cfg fn world attempt lastError st =
     (if attempt < maxRetries cfg
      then (case fn (world attempt) st of
              (Inr v, st') \<Rightarrow> ((Inr v, st'), [Inr v])
            | (Inl e, st') \<Rightarrow>
                if \<not> shouldRetry cfg e then ((Inl e, st'), [Inl e])
                else (case retry_from cfg fn world (attempt + 1) (Some e) st' of
                        (r, trace) \<Rightarrow> (r, Inl e # trace)))
      else (((case lastError of
                Some e \<Rightarrow> Inl e
              | None \<Rightarrow> Inl (Error ''Cannot read properties of undefined (reading message)'')), st),
            []))"
  by pat_completeness auto
termination
  by (relation "measure (\<lambda>(cfg, fn, world, attempt, lastError, st). maxRetries cfg - attempt)") auto

declare retry_from.simps [simp del]

definition retryWithBackoff ::
  "('e \<Rightarrow> 's \<Rightarrow> (error + 'a) \<times> 's) \<Rightarrow> retry_config \<Rightarrow> (nat \<Rightarrow> 'e) \<Rightarrow> 's
     \<Rightarrow> ((error + 'a) \<times> 's) \<times> (error + 'a) list" where
  "retryWithBackoff fn cfg world st = retry_from cfg fn world 0 None st"

text \<open>
  \<^verbatim>\<open>ResilientDatabase.query(name, queryFn, options)\<close>. The retry options it passes:
  \<^verbatim>\<open>{maxRetries: 3, initialDelay: 100, maxDelay: 1000, shouldRetry: .., ...options.retry}\<close>,
  where \<^verbatim>\<open>shouldRetry\<close> looks for four words in the lower-cased message.
\<close>

definition db_shouldRetry :: "error \<Rightarrow> bool" where
  "db_shouldRetry e =
     (let m = toLowerCase (error_message e)
      in str_includes m ''connection'' \<or> str_includes m ''timeout''
         \<or> str_includes m ''econnrefused'' \<or> str_includes m ''enotfound'')"

record retry_options =
  o_maxRetries :: "nat option"
  o_initialDelay :: "int option"
  o_maxDelay :: "int option"
  o_factor :: "int option"
  o_shouldRetry :: "(error \<Rightarrow> bool) option"

definition no_options :: retry_options where
  "no_options = \<lparr>o_maxRetries = None, o_initialDelay = None, o_maxDelay = None, o_factor = None,
                  o_shouldRetry = None\<rparr>"

definition db_retry_config :: "retry_options \<Rightarrow> retry_config" where
  "db_retry_config opts =
     \<lparr>maxRetries = (case o_maxRetries opts of Some n \<Rightarrow> n | None \<Rightarrow> 3),
      initialDelay = (case o_initialDelay opts of Some n \<Rightarrow> n | None \<Rightarrow> 100),
      maxDelay = (case o_maxDelay opts of Some n \<Rightarrow> n | None \<Rightarrow> 1000),
      factor = (case o_factor opts of Some n \<Rightarrow> n | None \<Rightarrow> 2),
      shouldRetry = (case o_shouldRetry opts of Some f \<Rightarrow> f | None \<Rightarrow> db_shouldRetry)\<rparr>"

text \<open>
  The circuit breaker is the library opossum. \<^verbatim>\<open>query\<close> builds one breaker per name,
  the first time the name is used, around \<^verbatim>\<open>wrappedFn\<close>, a closure over that call's
  \<^verbatim>\<open>queryFn\<close> and retry options, and keeps it in \<^verbatim>\<open>circuitBreakers\<close>. Every later call
  with the name finds the breaker and calls \<^verbatim>\<open>breaker.fire()\<close> with no argument: its
  own \<^verbatim>\<open>queryFn\<close> is referred to nowhere outside the branch that builds a breaker.
  A breaker is therefore the pair of captured values. Whether the circuit is open is
  opossum's business: \<open>open_before\<close> says that \<^verbatim>\<open>fire\<close> rejects at once, the wrapped
  function not called; \<open>open_after\<close> is \<^verbatim>\<open>breaker.opened\<close> as the \<^verbatim>\<open>catch\<close> reads it.
\<close>

record ('e, 's, 'a) breaker =
  b_queryFn :: "'e \<Rightarrow> 's \<Rightarrow> (error + 'a) \<times> 's"
  b_retry :: retry_config

type_synonym ('e, 's, 'a) resilient = "string \<rightharpoonup> ('e, 's, 'a) breaker"

definition unavailable :: "string \<Rightarrow> error" where
  "unavailable name = Error (''Database temporarily unavailable for '' @ name)"

definition breaker_for ::
  "string \<Rightarrow> ('e \<Rightarrow> 's \<Rightarrow> (error + 'a) \<times> 's) \<Rightarrow> retry_options \<Rightarrow> ('e, 's, 'a) resilient
     \<Rightarrow> ('e, 's, 'a) breaker" where
  "breaker_for name queryFn opts circuitBreakers =
     (case circuitBreakers name of
        Some b \<Rightarrow> b
      | None \<Rightarrow> \<lparr>b_queryFn = queryFn, b_retry = db_retry_config opts\<rparr>)"

definition query ::
  "string \<Rightarrow> ('e \<Rightarrow> 's \<Rightarrow> (error + 'a) \<times> 's) \<Rightarrow> retry_options \<Rightarrow> bool \<Rightarrow> bool \<Rightarrow> (nat \<Rightarrow> 'e)
     \<Rightarrow> ('e, 's, 'a) resilient \<Rightarrow> 's
     \<Rightarrow> ((error + 'a) \<times> 's) \<times> ('e, 's, 'a) resilient \<times> (error + 'a) list" where
  "query name queryFn opts open_before open_after world circuitBreakers st =
     (let breaker = breaker_for name queryFn opts circuitBreakers;
          circuitBreakers' = circuitBreakers(name \<mapsto> breaker)
      in if open_before then ((Inl (unavailable name), st), circuitBreakers', [])
         else (case retryWithBackoff (b_queryFn breaker) (b_retry breaker) world st of
                 ((Inr v, st'), trace) \<Rightarrow> ((Inr v, st'), circuitBreakers', trace)
               | ((Inl e, st'), trace) \<Rightarrow>
                   ((Inl (if open_after then unavailable name else e), st'), circuitBreakers', trace)))"


section \<open>The first room service\<close>

text \<open>
  Source: class \<^verbatim>\<open>RoomService\<close> (\<^verbatim>\<open>server/src/services/roomService.ts\<close>), the service
  the API routes call. Each function returns its \<^verbatim>\<open>{data, error}\<close> object as
  \<open>error + data\<close>, together with the database it leaves behind: the statements are not
  in a transaction, so what ran before a failing statement stays. A uuid the database
  generates (\<^verbatim>\<open>defaultRandom()\<close>) and a clock reading (\<^verbatim>\<open>new Date()\<close>, \<^verbatim>\<open>Date.now()\<close>)
  are arguments. The storage is taken to be reachable, except in
  \<open>getActiveParticipantCount\<close>, whose failure a caller handles.
\<close>

record config_in =
  c_timerDuration :: "int option"
  c_maxParticipants :: "int option"
  c_moderationEnabled :: "bool option"
  c_contentWarnings :: "bool option"

text \<open>\<^verbatim>\<open>{timerDuration: 30, maxParticipants: 200, moderationEnabled: true, contentWarnings: true, ...config}\<close>\<close>

definition defaultConfig :: "config_in \<Rightarrow> config" where
  "defaultConfig c =
     \<lparr>timerDuration = (case c_timerDuration c of Some n \<Rightarrow> n | None \<Rightarrow> 30),
      maxParticipants = (case c_maxParticipants c of Some n \<Rightarrow> n | None \<Rightarrow> 200),
      moderationEnabled = (case c_moderationEnabled c of Some b \<Rightarrow> b | None \<Rightarrow> True),
      contentWarnings = (case c_contentWarnings c of Some b \<Rightarrow> b | None \<Rightarrow> True)\<rparr>"

definition createRoom :: "config_in \<Rightarrow> string \<Rightarrow> string \<Rightarrow> db \<Rightarrow> (error + session) \<times> db" where
  "createRoom cfg nano new_id d =
     (let room = \<lparr>s_id = new_id, roomCode = generateRoomCode nano, s_endedAt = None,
                  s_config = defaultConfig cfg, s_status = Waiting\<rparr>
      in case insert_session room d of
           Inl e \<Rightarrow> (Inl e, d)
         | Inr d' \<Rightarrow> (Inr room, d'))"

text \<open>
  The three selects of \<^verbatim>\<open>joinRoom\<close>: the session of a room code that is
  \<^verbatim>\<open>waiting\<close> or \<^verbatim>\<open>active\<close>, the count of active participants, the participant of a
  fingerprint. \<^verbatim>\<open>const [x] = rows\<close> takes the first row.
\<close>

definition joinable_sessions :: "db \<Rightarrow> string \<Rightarrow> session list" where
  "joinable_sessions d rc =
     [s \<leftarrow> sessions d. roomCode s = rc \<and> (s_status s = Waiting \<or> s_status s = Active)]"

definition active_count :: "db \<Rightarrow> string \<Rightarrow> int" where
  "active_count d sessionId =
     int (length [p \<leftarrow> participants d. p_sessionId p = sessionId \<and> isActive p])"

definition known_participants :: "db \<Rightarrow> string \<Rightarrow> string \<Rightarrow> participant list" where
  "known_participants d sessionId fp =
     [p \<leftarrow> participants d. p_sessionId p = sessionId \<and> fingerprint p = fp]"

text \<open>The (session, fingerprint) pair of every participant row: what a participant is known by.\<close>

definition pairs :: "db \<Rightarrow> (string \<times> string) list" where
  "pairs d = map (\<lambda>p. (p_sessionId p, fingerprint p)) (participants d)"

text \<open>\<^verbatim>\<open>update(participants).set({isActive: true, joinedAt: new Date()}).where(eq(participants.id, id))\<close>\<close>

definition reactivate :: "string \<Rightarrow> nat \<Rightarrow> db \<Rightarrow> db" where
  "reactivate pid now d =
     d\<lparr>participants :=
         map (\<lambda>p. if p_id p = pid then p\<lparr>isActive := True, joinedAt := now\<rparr> else p) (participants d)\<rparr>"

definition joinRoom ::
  "string \<Rightarrow> string \<Rightarrow> string option \<Rightarrow> nat \<Rightarrow> string \<Rightarrow> db \<Rightarrow> (error + participant \<times> session) \<times> db" where
  "joinRoom rc fp ua now new_id d =
     (case joinable_sessions d rc of
        [] \<Rightarrow> (Inl (Error ''Room not found or inactive''), d)
      | session # _ \<Rightarrow>
          if active_count d (s_id session) \<ge> maxParticipants (s_config session)
          then (Inl (Error ''Room is full''), d)
          else (case known_participants d (s_id session) fp of
                  existingParticipant # _ \<Rightarrow>
                    (let d' = reactivate (p_id existingParticipant) now d
                     in (case [p \<leftarrow> participants d'. p_id p = p_id existingParticipant] of
                           updatedParticipant # _ \<Rightarrow> (Inr (updatedParticipant, session), d')
                         | [] \<Rightarrow> (Inr (existingParticipant, session), d')))
                | [] \<Rightarrow>
                    (let p = \<lparr>p_id = new_id, p_sessionId = s_id session, fingerprint = fp,
                               joinedAt = now, leftAt = None, userAgent = ua, isActive = True\<rparr>
                     in case insert_participant p d of
                          Inl e \<Rightarrow> (Inl e, d)
                        | Inr d' \<Rightarrow> (Inr (p, session), d'))))"

text \<open>
  \<^verbatim>\<open>startScenario\<close>: every \<^verbatim>\<open>active\<close> record of the session becomes \<^verbatim>\<open>complete\<close>, then a
  new \<^verbatim>\<open>active\<close> record is inserted.
\<close>

definition startScenario :: "string \<Rightarrow> string \<Rightarrow> nat \<Rightarrow> string \<Rightarrow> db \<Rightarrow> (error + session_scenario) \<times> db" where
  "startScenario sessionId scenarioId now new_id d =
     (let d1 = d\<lparr>sessionScenarios :=
                   map (\<lambda>x. if ss_sessionId x = sessionId \<and> ss_status x = ''active''
                             then x\<lparr>ss_status := ''complete'', ss_endedAt := Some now\<rparr> else x)
                       (sessionScenarios d)\<rparr>;
          x = \<lparr>ss_id = new_id, ss_sessionId = sessionId, ss_scenarioId = scenarioId,
               ss_status = ''active'', startedAt = Some now, ss_endedAt = None\<rparr>
      in case insert_sessionScenario x d1 of
           Inl e \<Rightarrow> (Inl e, d1)
         | Inr d2 \<Rightarrow> (Inr x, d2))"

text \<open>
  The row \<^verbatim>\<open>submitVote\<close> writes for a rationale or a mitigation \<open>t\<close> (already trimmed):
  \<^verbatim>\<open>{voteId, originalText: t, processedText: t.toLowerCase(), wordCount: t.split(/\s+/).length}\<close>.
\<close>

definition text_row_of :: "string \<Rightarrow> string \<Rightarrow> string \<Rightarrow> text_row" where
  "text_row_of new_id vid t =
     \<lparr>t_id = new_id, voteId = vid, originalText = t, processedText = Some (toLowerCase t),
      wordCount = Some (int (length (split_ws t))), moderated = False\<rparr>"

text \<open>
  \<^verbatim>\<open>if (text && text.trim()) { await insert(..) }\<close>: a text that is missing, empty or
  all white space writes no row. \<open>ins\<close> is the insert of the table.
\<close>

definition insert_text ::
  "(text_row \<Rightarrow> db \<Rightarrow> error + db) \<Rightarrow> string option \<Rightarrow> string \<Rightarrow> string \<Rightarrow> db \<Rightarrow> error + db" where
  "insert_text ins text new_id vid d =
     (case text of
        Some t \<Rightarrow> if t \<noteq> [] \<and> trim t \<noteq> [] then ins (text_row_of new_id vid (trim t)) d else Inr d
      | None \<Rightarrow> Inr d)"

text \<open>
  \<^verbatim>\<open>submitVote\<close> of the first service: the vote is inserted with no look at the votes
  already there. \<open>t0\<close> and \<open>t1\<close> are the two readings of \<^verbatim>\<open>Date.now()\<close>; \<open>vid\<close>, \<open>rid\<close>
  and \<open>mid\<close> the uuids of the three rows.
\<close>

definition submitVote ::
  "string \<Rightarrow> string \<Rightarrow> string \<Rightarrow> string \<Rightarrow> string option \<Rightarrow> string option
     \<Rightarrow> nat \<Rightarrow> nat \<Rightarrow> string \<Rightarrow> string \<Rightarrow> string \<Rightarrow> db \<Rightarrow> (error + vote) \<times> db" where
  "submitVote sessionId participantId scenarioId vote_str rationale mitigation t0 t1 vid rid mid d =
     (case parse_vote vote_str of
        Inl e \<Rightarrow> (Inl e, d)
      | Inr vt \<Rightarrow>
         (let voteData = \<lparr>v_id = vid, v_sessionId = sessionId, v_participantId = participantId,
                          v_scenarioId = scenarioId, v_vote = vt, latencyMs = Some (int t1 - int t0)\<rparr>
          in case insert_vote voteData d of
               Inl e \<Rightarrow> (Inl e, d)
             | Inr d1 \<Rightarrow>
                 (case insert_text insert_rationale rationale rid vid d1 of
                    Inl e \<Rightarrow> (Inl e, d1)
                  | Inr d2 \<Rightarrow>
                      (case insert_text insert_mitigation mitigation mid vid d2 of
                         Inl e \<Rightarrow> (Inl e, d2)
                       | Inr d3 \<Rightarrow> (Inr voteData, d3)))))"

text \<open>
  \<^verbatim>\<open>getVoteSummary\<close>: \<^verbatim>\<open>select vote, count(*), avg(latency_ms) .. group by vote\<close>, then a
  \<^verbatim>\<open>forEach\<close> over the groups. A group exists for each label that occurs; the groups come
  in the order the labels first occur (SQL leaves the order open). \<^verbatim>\<open>avg\<close> skips nulls
  and is null when all are; \<^verbatim>\<open>Number(avg) || 0\<close> turns null into 0. The average is an
  exact rational here.
\<close>

definition vote_rows :: "db \<Rightarrow> string \<Rightarrow> string \<Rightarrow> vote list" where
  "vote_rows d sessionId scenarioId =
     [v \<leftarrow> votes d. v_sessionId v = sessionId \<and> v_scenarioId v = scenarioId]"

definition avg :: "int option list \<Rightarrow> rat option" where
  "avg xs =
     (let ys = [y. Some y \<leftarrow> xs]
      in if ys = [] then None else Some (of_int (sum_list ys) / of_nat (length ys)))"

record group_row =
  g_vote :: vote_type
  g_count :: int
  g_avgLatency :: "rat option"

definition group_by_vote :: "vote list \<Rightarrow> group_row list" where
  "group_by_vote vs =
     map (\<lambda>l. \<lparr>g_vote = l, g_count = int (length [v \<leftarrow> vs. v_vote v = l]),
                g_avgLatency = avg (map latencyMs [v \<leftarrow> vs. v_vote v = l])\<rparr>)
         (remdups (map v_vote vs))"

record summary =
  totalVotes :: int
  pullVotes :: int
  dontPullVotes :: int
  avgLatencyMs :: rat

definition summary_step :: "group_row \<Rightarrow> summary \<Rightarrow> summary" where
  "summary_step result summary =
     (let s1 = summary\<lparr>totalVotes := totalVotes summary + g_count result\<rparr>;
          s2 = (if g_vote result = Pull then s1\<lparr>pullVotes := g_count result\<rparr>
                else s1\<lparr>dontPullVotes := g_count result\<rparr>)
      in s2\<lparr>avgLatencyMs := (case g_avgLatency result of Some a \<Rightarrow> a | None \<Rightarrow> 0)\<rparr>)"

definition getVoteSummary :: "string \<Rightarrow> string \<Rightarrow> db \<Rightarrow> summary" where
  "getVoteSummary sessionId scenarioId d =
     fold summary_step (group_by_vote (vote_rows d sessionId scenarioId))
       \<lparr>totalVotes = 0, pullVotes = 0, dontPullVotes = 0, avgLatencyMs = 0\<rparr>"

text \<open>
  \<^verbatim>\<open>endSession\<close> of the first service: one update,
  \<^verbatim>\<open>update(sessions).set({status: 'complete', endedAt: new Date()}).where(eq(sessions.id, sessionId))\<close>,
  whose first returned row is the result \<^verbatim>\<open>{data, error: null}\<close>. \<open>fault\<close> is what the storage
  throws at the statement, if it throws: the \<^verbatim>\<open>catch\<close> returns \<^verbatim>\<open>{data: null, error}\<close> and
  nothing is written.
\<close>

definition end_session_row :: "string \<Rightarrow> nat \<Rightarrow> session \<Rightarrow> session" where
  "end_session_row sessionId now s =
     (if s_id s = sessionId then s\<lparr>s_status := Complete, s_endedAt := Some now\<rparr> else s)"

definition end_session_rows :: "string \<Rightarrow> nat \<Rightarrow> db \<Rightarrow> db" where
  "end_session_rows sessionId now d = d\<lparr>sessions := map (end_session_row sessionId now) (sessions d)\<rparr>"

definition first_row :: "'a list \<Rightarrow> 'a option" where
  "first_row rows = (case rows of [] \<Rightarrow> None | x # _ \<Rightarrow> Some x)"

definition endSession :: "string \<Rightarrow> error option \<Rightarrow> nat \<Rightarrow> db \<Rightarrow> (error + session option) \<times> db" where
  "endSession sessionId fault now d =
     (case fault of
        Some e \<Rightarrow> (Inl e, d)
      | None \<Rightarrow>
          (let d' = end_session_rows sessionId now d
           in (Inr (first_row [s \<leftarrow> sessions d'. s_id s = sessionId]), d')))"

text \<open>
  \<^verbatim>\<open>getActiveParticipantCount\<close> of the first service has no \<^verbatim>\<open>try\<close>: a storage failure
  \<open>fault\<close> of its one query rejects the promise.
\<close>

definition getActiveParticipantCount :: "string \<Rightarrow> error option \<Rightarrow> db \<Rightarrow> error + int" where
  "getActiveParticipantCount sessionId fault d =
     (case fault of Some e \<Rightarrow> Inl e | None \<Rightarrow> Inr (active_count d sessionId))"

section \<open>The enhanced room service\<close>

text \<open>
  Source: class \<^verbatim>\<open>RoomServiceEnhanced\<close> (second part of
  \<^verbatim>\<open>server/src/services/realtimeServiceSecure.ts\<close>). \<^verbatim>\<open>db.transaction\<close> rolls back when
  its body throws, so a failing function leaves the database as it found it.
\<close>

text \<open>
  \<^verbatim>\<open>createRoom\<close>: the config is checked, then up to \<^verbatim>\<open>maxAttempts = 10\<close> codes are
  generated until one is held by no session. The result comes with the position the
  random source has reached.
\<close>

function createRoom_loop ::
  "nat \<Rightarrow> config \<Rightarrow> (nat \<Rightarrow> real) \<Rightarrow> nat \<Rightarrow> string \<Rightarrow> db \<Rightarrow> (error + session) \<times> db \<times> nat" where
  "createRoom_loop attempts cfg rnd pos new_id d =
     (if attempts < 10
      then (case generateSecureRoomCode rnd pos of
              (rc, pos') \<Rightarrow>
                if [s \<leftarrow> sessions d. roomCode s = rc] = []
                then (let newRoom = \<lparr>s_id = new_id, roomCode = rc, s_endedAt = None,
                                       s_config = cfg, s_status = Waiting\<rparr>
                      in case insert_session newRoom d of
                           Inl e \<Rightarrow> (Inl e, d, pos')
                         | Inr d' \<Rightarrow> (Inr newRoom, d', pos'))
                else createRoom_loop (attempts + 1) cfg rnd pos' new_id d)
      else (Inl (Error ''Failed to generate unique room code''), d, pos))"
  by pat_completeness auto
termination
  by (relation "measure (\<lambda>(attempts, cfg, rnd, pos, new_id, d). 10 - attempts)") auto

declare createRoom_loop.simps [simp del]

text \<open>
  The \<open>k\<close>-th code the loop generates from position \<open>pos\<close> on, and a code that a session
  holds (the select \<^verbatim>\<open>where(eq(sessions.roomCode, roomCode))\<close> finds a row).
\<close>

definition code_at :: "(nat \<Rightarrow> real) \<Rightarrow> nat \<Rightarrow> nat \<Rightarrow> string" where
  "code_at rnd pos k = fst (generateSecureRoomCode rnd (pos + 6 * k))"

definition taken :: "db \<Rightarrow> string \<Rightarrow> bool" where
  "taken d rc = ([s \<leftarrow> sessions d. roomCode s = rc] \<noteq> [])"


definition createRoomEnhanced ::
  "config_in \<Rightarrow> (nat \<Rightarrow> real) \<Rightarrow> nat \<Rightarrow> string \<Rightarrow> db \<Rightarrow> (error + session) \<times> db \<times> nat" where
  "createRoomEnhanced cfg rnd pos new_id d =
     (let c = defaultConfig cfg
      in if timerDuration c < 10 \<or> timerDuration c > 300
         then (Inl (Error ''Timer duration must be between 10 and 300 seconds''), d, pos)
         else if maxParticipants c < 1 \<or> maxParticipants c > 500
         then (Inl (Error ''Max participants must be between 1 and 500''), d, pos)
         else createRoom_loop 0 c rnd pos new_id d)"

text \<open>
  \<^verbatim>\<open>submitVote\<close>: the vote value is checked, the texts are sanitized, and one
  transaction looks for a vote of the triple, refuses when there is one, and inserts
  the vote and its texts otherwise.
\<close>

definition existingVote :: "db \<Rightarrow> string \<Rightarrow> string \<Rightarrow> string \<Rightarrow> vote list" where
  "existingVote d sessionId participantId scenarioId =
     [v \<leftarrow> votes d. v_sessionId v = sessionId \<and> v_participantId v = participantId
                      \<and> v_scenarioId v = scenarioId]"

text \<open>\<^verbatim>\<open>text ? sanitize(text) : undefined\<close>\<close>

definition sanitized :: "(string \<Rightarrow> string) \<Rightarrow> string option \<Rightarrow> string option" where
  "sanitized sanitize text =
     (case text of Some t \<Rightarrow> if t \<noteq> [] then Some (sanitize t) else None | None \<Rightarrow> None)"

definition submitVoteEnhanced ::
  "(string \<Rightarrow> string) \<Rightarrow> string \<Rightarrow> string \<Rightarrow> string \<Rightarrow> string \<Rightarrow> string option \<Rightarrow> string option
     \<Rightarrow> nat \<Rightarrow> nat \<Rightarrow> string \<Rightarrow> string \<Rightarrow> string \<Rightarrow> db \<Rightarrow> (error + vote) \<times> db" where
  "submitVoteEnhanced scrub sessionId participantId scenarioId vote_str rationale mitigation
                      t0 t1 vid rid mid d =
     (if vote_str \<noteq> ''pull'' \<and> vote_str \<noteq> ''dont_pull''
      then (Inl (Error ''Invalid vote value''), d)
      else
       (let sanitizedRationale = sanitized (sanitizeRationale scrub) rationale;
            sanitizedMitigation = sanitized (sanitizeMitigation scrub) mitigation
        in if existingVote d sessionId participantId scenarioId \<noteq> []
           then (Inl (Error ''Participant has already voted for this scenario''), d)
           else
            (case parse_vote vote_str of
               Inl e \<Rightarrow> (Inl e, d)
             | Inr vt \<Rightarrow>
                (let newVote = \<lparr>v_id = vid, v_sessionId = sessionId, v_participantId = participantId,
                                v_scenarioId = scenarioId, v_vote = vt,
                                latencyMs = Some (int t1 - int t0)\<rparr>
                 in case insert_vote newVote d of
                      Inl e \<Rightarrow> (Inl e, d)
                    | Inr d1 \<Rightarrow>
                       (case insert_text insert_rationale sanitizedRationale rid vid d1 of
                          Inl e \<Rightarrow> (Inl e, d)
                        | Inr d2 \<Rightarrow>
                           (case insert_text insert_mitigation sanitizedMitigation mid vid d2 of
                              Inl e \<Rightarrow> (Inl e, d)
                            | Inr d3 \<Rightarrow> (Inr newVote, d3)))))))"

text \<open>
  \<^verbatim>\<open>endSession\<close>: three updates in one \<^verbatim>\<open>db.transaction\<close>, inside a \<^verbatim>\<open>try\<close>. \<open>t1\<close>, \<open>t2\<close>,
  \<open>t3\<close> are the three \<^verbatim>\<open>new Date()\<close>. The scenario update has no condition on the status:
  every record of the session becomes \<^verbatim>\<open>complete\<close>. \<open>fault\<close> is what \<^verbatim>\<open>db.transaction\<close> or
  a statement in it throws, if one throws (the driver of \<^verbatim>\<open>db/connection.ts\<close>, neon-http,
  has no transactions and throws at once): the transaction writes nothing and the
  \<^verbatim>\<open>catch\<close> returns \<^verbatim>\<open>{data: null, error}\<close>.
\<close>

definition deactivate_row :: "string \<Rightarrow> nat \<Rightarrow> participant \<Rightarrow> participant" where
  "deactivate_row sessionId now p =
     (if p_sessionId p = sessionId then p\<lparr>isActive := False, leftAt := Some now\<rparr> else p)"

definition complete_scenario_row :: "string \<Rightarrow> nat \<Rightarrow> session_scenario \<Rightarrow> session_scenario" where
  "complete_scenario_row sessionId now x =
     (if ss_sessionId x = sessionId then x\<lparr>ss_status := ''complete'', ss_endedAt := Some now\<rparr> else x)"

definition endSessionEnhanced ::
  "string \<Rightarrow> error option \<Rightarrow> nat \<Rightarrow> nat \<Rightarrow> nat \<Rightarrow> db \<Rightarrow> (error + session option) \<times> db" where
  "endSessionEnhanced sessionId fault t1 t2 t3 d =
     (case fault of
        Some e \<Rightarrow> (Inl e, d)
      | None \<Rightarrow>
          (let d1 = end_session_rows sessionId t1 d;
               d2 = d1\<lparr>participants := map (deactivate_row sessionId t2) (participants d1)\<rparr>;
               d3 = d2\<lparr>sessionScenarios :=
                         map (complete_scenario_row sessionId t3) (sessionScenarios d2)\<rparr>
           in (Inr (first_row [s \<leftarrow> sessions d1. s_id s = sessionId]), d3)))"

subsection \<open>The functions that go through the resilient database\<close>

text \<open>
  What the outside world hands to one invocation of a query function: a storage fault
  or none, the clock, and the uuid a new row would get.
\<close>

record attempt =
  at_fault :: "error option"
  at_now :: nat
  at_id :: string

text \<open>
  \<^verbatim>\<open>getVoteSummary\<close> joins the rationales to the votes before it groups:
  \<^verbatim>\<open>count(*)\<close> counts joined rows, one per rationale of a vote and one for a vote with
  none. \<^verbatim>\<open>avg(latency_ms)::int\<close> rounds to the nearest integer, a half away from zero.
  \<^verbatim>\<open>array_agg(DISTINCT original_text)\<close> keeps each text once.
\<close>

definition joined_rows :: "db \<Rightarrow> string \<Rightarrow> string \<Rightarrow> (vote \<times> text_row option) list" where
  "joined_rows d sessionId scenarioId =
     concat (map (\<lambda>v. case [r \<leftarrow> rationales d. voteId r = v_id v] of
                         [] \<Rightarrow> [(v, None)]
                       | rs \<Rightarrow> map (\<lambda>r. (v, Some r)) rs)
                 (vote_rows d sessionId scenarioId))"

definition pg_round :: "rat \<Rightarrow> int" where
  "pg_round q = (if 0 \<le> q then \<lfloor>q + 1 / 2\<rfloor> else - \<lfloor>- q + 1 / 2\<rfloor>)"

record group_row_enh = group_row +
  g_rationales :: "string list"

definition group_by_vote_enh :: "(vote \<times> text_row option) list \<Rightarrow> group_row_enh list" where
  "group_by_vote_enh js =
     map (\<lambda>l. \<lparr>g_vote = l,
                g_count = int (length [j \<leftarrow> js. v_vote (fst j) = l]),
                g_avgLatency = map_option (\<lambda>a. of_int (pg_round a))
                                 (avg (map (\<lambda>j. latencyMs (fst j)) [j \<leftarrow> js. v_vote (fst j) = l])),
                g_rationales = remdups [originalText r. (v, Some r) \<leftarrow> js, v_vote v = l]\<rparr>)
         (remdups (map (\<lambda>j. v_vote (fst j)) js))"

record summary_enh = summary +
  rationales_pull :: "string list"
  rationales_dont_pull :: "string list"

definition summary_step_enh :: "group_row_enh \<Rightarrow> summary_enh \<Rightarrow> summary_enh" where
  "summary_step_enh row result =
     (let s1 = result\<lparr>totalVotes := totalVotes result + g_count row\<rparr>;
          s2 = (if g_vote row = Pull
                then s1\<lparr>pullVotes := g_count row, rationales_pull := g_rationales row\<rparr>
                else s1\<lparr>dontPullVotes := g_count row, rationales_dont_pull := g_rationales row\<rparr>)
      in s2\<lparr>avgLatencyMs := (case g_avgLatency row of Some a \<Rightarrow> a | None \<Rightarrow> 0)\<rparr>)"

definition vote_summary :: "string \<Rightarrow> string \<Rightarrow> db \<Rightarrow> summary_enh" where
  "vote_summary sessionId scenarioId d =
     fold summary_step_enh (group_by_vote_enh (joined_rows d sessionId scenarioId))
       \<lparr>totalVotes = 0, pullVotes = 0, dontPullVotes = 0, avgLatencyMs = 0,
        rationales_pull = [], rationales_dont_pull = []\<rparr>"

text \<open>
  One \<^verbatim>\<open>circuitBreakers\<close> map serves every query name, so the three query functions
  return into one type.
\<close>

datatype qval = QJoin participant session | QSummary summary_enh | QCount int

type_synonym rdb = "(attempt, db, qval) resilient"

definition vote_summary_fn :: "string \<Rightarrow> string \<Rightarrow> attempt \<Rightarrow> db \<Rightarrow> (error + qval) \<times> db" where
  "vote_summary_fn sessionId scenarioId a d =
     (case at_fault a of
        Some e \<Rightarrow> (Inl e, d)
      | None \<Rightarrow> (Inr (QSummary (vote_summary sessionId scenarioId d)), d))"

definition getVoteSummaryEnhanced ::
  "string \<Rightarrow> string \<Rightarrow> bool \<Rightarrow> bool \<Rightarrow> (nat \<Rightarrow> attempt) \<Rightarrow> rdb \<Rightarrow> db \<Rightarrow> ((error + qval) \<times> db) \<times> rdb" where
  "getVoteSummaryEnhanced sessionId scenarioId open_before open_after world circuitBreakers d =
     (case query ''vote-summary'' (vote_summary_fn sessionId scenarioId) no_options
                 open_before open_after world circuitBreakers d of
        (r, circuitBreakers', n) \<Rightarrow> (r, circuitBreakers'))"

text \<open>
  \<^verbatim>\<open>joinRoom\<close>: the inputs are sanitized, then the transaction of the first service's
  \<^verbatim>\<open>joinRoom\<close> runs as the query function \<^verbatim>\<open>join-room\<close>, the user agent cut to 500
  characters.
\<close>

definition join_room_fn :: "string \<Rightarrow> string \<Rightarrow> string option \<Rightarrow> attempt \<Rightarrow> db \<Rightarrow> (error + qval) \<times> db" where
  "join_room_fn sanitizedRoomCode sanitizedFingerprint ua a d =
     (case at_fault a of
        Some e \<Rightarrow> (Inl e, d)
      | None \<Rightarrow>
          (case joinRoom sanitizedRoomCode sanitizedFingerprint
                  (case ua of Some u \<Rightarrow> if u \<noteq> [] then Some (take 500 u) else None | None \<Rightarrow> None)
                  (at_now a) (at_id a) d of
             (Inl e, d') \<Rightarrow> (Inl e, d)
           | (Inr (p, s), d') \<Rightarrow> (Inr (QJoin p s), d')))"

definition joinRoomEnhanced ::
  "string \<Rightarrow> string \<Rightarrow> string option \<Rightarrow> bool \<Rightarrow> bool \<Rightarrow> (nat \<Rightarrow> attempt) \<Rightarrow> rdb \<Rightarrow> db
     \<Rightarrow> ((error + qval) \<times> db) \<times> rdb" where
  "joinRoomEnhanced rc fp ua open_before open_after world circuitBreakers d =
     (if sanitizeRoomCode rc = [] \<or> sanitizeFingerprint fp = []
      then ((Inl (Error ''Invalid room code or fingerprint''), d), circuitBreakers)
      else (case query ''join-room'' (join_room_fn (sanitizeRoomCode rc) (sanitizeFingerprint fp) ua)
                       no_options open_before open_after world circuitBreakers d of
              (r, circuitBreakers', n) \<Rightarrow> (r, circuitBreakers')))"

text \<open>
  \<^verbatim>\<open>getActiveParticipantCount\<close>: the count through the query \<^verbatim>\<open>participant-count\<close>; the
  \<^verbatim>\<open>catch\<close> returns 0.
\<close>

definition participant_count_fn :: "string \<Rightarrow> attempt \<Rightarrow> db \<Rightarrow> (error + qval) \<times> db" where
  "participant_count_fn sessionId a d =
     (case at_fault a of
        Some e \<Rightarrow> (Inl e, d)
      | None \<Rightarrow> (Inr (QCount (active_count d sessionId)), d))"

definition getActiveParticipantCountEnhanced ::
  "string \<Rightarrow> bool \<Rightarrow> bool \<Rightarrow> (nat \<Rightarrow> attempt) \<Rightarrow> rdb \<Rightarrow> db \<Rightarrow> (qval \<times> db) \<times> rdb" where
  "getActiveParticipantCountEnhanced sessionId open_before open_after world circuitBreakers d =
     (case query ''participant-count'' (participant_count_fn sessionId) no_options
                 open_before open_after world circuitBreakers d of
        ((Inr v, d'), circuitBreakers', n) \<Rightarrow> ((v, d'), circuitBreakers')
      | ((Inl e, d'), circuitBreakers', n) \<Rightarrow> ((QCount 0, d'), circuitBreakers'))"


text \<open>The invariant of the vote ledger: no (session, participant, scenario) triple has two votes.\<close>

definition one_vote_per_triple :: "db \<Rightarrow> bool" where
  "one_vote_per_triple d =
     (\<forall>sessionId participantId scenarioId.
        length (existingVote d sessionId participantId scenarioId) \<le> 1)"

text \<open>
  A database in which a vote has at most one rationale (the data model's "attached 1:1
  to a vote").
\<close>

definition one_rationale_per_vote :: "db \<Rightarrow> bool" where
  "one_rationale_per_vote d = (\<forall>v \<in> set (votes d). length [r \<leftarrow> rationales d. voteId r = v_id v] \<le> 1)"

section \<open>Example states\<close>

text \<open>
  A world with no storage fault, the empty config of \<^verbatim>\<open>createRoom()\<close>, and a database
  with two waiting rooms, one participant of the second room, and his one vote on
  scenario \<open>x\<close>.
\<close>

definition calm :: "nat \<Rightarrow> attempt" where
  "calm k = \<lparr>at_fault = None, at_now = 100 + k, at_id = ''new-'' @ replicate k CHR ''i''\<rparr>"

definition no_config :: config_in where
  "no_config = \<lparr>c_timerDuration = None, c_maxParticipants = None,
                 c_moderationEnabled = None, c_contentWarnings = None\<rparr>"

definition room1 :: session where
  "room1 = \<lparr>s_id = ''s1'', roomCode = ''ROOM01'', s_endedAt = None,
            s_config = defaultConfig no_config, s_status = Waiting\<rparr>"

definition room2 :: session where
  "room2 = room1\<lparr>s_id := ''s2'', roomCode := ''ROOM02''\<rparr>"

definition bob :: participant where
  "bob = \<lparr>p_id = ''p1'', p_sessionId = ''s2'', fingerprint = ''bob'', joinedAt = 10, leftAt = None,
          userAgent = None, isActive = True\<rparr>"

definition bobs_vote :: vote where
  "bobs_vote = \<lparr>v_id = ''v1'', v_sessionId = ''s2'', v_participantId = ''p1'', v_scenarioId = ''x'',
                v_vote = Pull, latencyMs = Some 5\<rparr>"

definition example_db :: db where
  "example_db = \<lparr>sessions = [room1, room2], participants = [bob], scenarios = [''x''],
                  sessionScenarios = [], votes = [bobs_vote], rationales = [], mitigations = []\<rparr>"

text \<open>
  A world whose storage refuses every connection, and the participant row a join of
  fingerprint \<open>alice\<close> to the second room writes in the calm world.
\<close>

definition stormy :: "nat \<Rightarrow> attempt" where
  "stormy k = \<lparr>at_fault = Some (Error ''connect ECONNREFUSED 127.0.0.1:5432''),
               at_now = 50 + k, at_id = ''lost''\<rparr>"

definition alice :: participant where
  "alice = \<lparr>p_id = ''new-'', p_sessionId = ''s2'', fingerprint = ''alice'', joinedAt = 100,
            leftAt = None, userAgent = None, isActive = True\<rparr>"

text \<open>A second vote of the participant of \<open>example_db\<close> on the same scenario.\<close>

definition second_vote :: vote where
  "second_vote = \<lparr>v_id = ''v2'', v_sessionId = ''s2'', v_participantId = ''p1'', v_scenarioId = ''x'',
                  v_vote = DontPull, latencyMs = Some 7\<rparr>"

text \<open>
  The example database with a round running in the second room; what the enhanced
  \<^verbatim>\<open>endSession\<close> of that room makes of it at the clock readings 31, 32, 33, and what a
  second call makes of that at 44, 45, 46; and the error of a driver without
  transactions.
\<close>

definition round1 :: session_scenario where
  "round1 = \<lparr>ss_id = ''r1'', ss_sessionId = ''s2'', ss_scenarioId = ''x'', ss_status = ''active'',
             startedAt = Some 20, ss_endedAt = None\<rparr>"

definition running_db :: db where
  "running_db = example_db\<lparr>sessionScenarios := [round1]\<rparr>"

definition again_db :: db where
  "again_db = example_db
     \<lparr>sessions := [room1, room2\<lparr>s_status := Complete, s_endedAt := Some 44\<rparr>],
      participants := [bob\<lparr>isActive := False, leftAt := Some 45\<rparr>],
      sessionScenarios := [round1\<lparr>ss_status := ''complete'', ss_endedAt := Some 46\<rparr>]\<rparr>"

definition no_transactions :: error where
  "no_transactions = Error ''No transactions support in neon-http driver''"

definition ended_db :: db where
  "ended_db = example_db
     \<lparr>sessions := [room1, room2\<lparr>s_status := Complete, s_endedAt := Some 31\<rparr>],
      participants := [bob\<lparr>isActive := False, leftAt := Some 32\<rparr>],
      sessionScenarios := [round1\<lparr>ss_status := ''complete'', ss_endedAt := Some 33\<rparr>]\<rparr>"

section \<open>Realtime services: socket handlers and countdown timers\<close>

text \<open>
  Source: \<^verbatim>\<open>server/src/services/realtimeService.ts\<close> (class \<^verbatim>\<open>RealtimeService\<close>) and
  \<^verbatim>\<open>server/src/services/realtimeServiceSecure.ts\<close> (class \<^verbatim>\<open>RealtimeServiceSecure\<close>).

  Both classes own a \<^verbatim>\<open>sessionTimers: Map<string, NodeJS.Timeout>\<close> and talk to
  socket.io. Everything a handler does to the outside world is an emit, so the model
  keeps a log of emits. A JavaScript number that holds whole seconds or a count is an
  \<open>int\<close>; a \<^verbatim>\<open>Date\<close> is a \<open>nat\<close> clock reading handed in by the caller.
\<close>

datatype event =
    participant_joined string "string option" int
  | participant_left string "string option" int
  | timer_started string string int nat
  | timer_tick string string int
  | scenario_started string string string
  | decision_announced string string string int int int
  | session_ended string string
  | error_event string

text \<open>
  \<^verbatim>\<open>this.io.to(`room:${sessionId}`).emit(..)\<close> is \<open>Emit (Room sessionId)\<close>,
  \<^verbatim>\<open>.volatile.emit(..)\<close> is \<open>VolatileEmit\<close>, and \<^verbatim>\<open>socket.emit(..)\<close> goes to the one
  socket, \<open>Sock id\<close>.
\<close>

datatype target = Room string | Sock nat

datatype emit = Emit target event | VolatileEmit target event

text \<open>
  The closure that \<^verbatim>\<open>setInterval\<close> keeps alive: the captured \<^verbatim>\<open>sessionId\<close>,
  \<^verbatim>\<open>scenarioId\<close>, the mutable \<^verbatim>\<open>secondsRemaining\<close>, and whether the tick is emitted
  volatile (the secure service) or not (the first service).
\<close>

record interval =
  iv_sessionId :: string
  iv_scenarioId :: string
  secondsRemaining :: int
  iv_volatile :: bool

text \<open>
  \<open>sessionTimers\<close> is the class field: a JavaScript \<^verbatim>\<open>Map\<close>, kept as an association
  list in insertion order (\<^verbatim>\<open>forEach\<close> walks it). \<open>intervals\<close> is the runtime's table
  of intervals that have been set and not cleared: only those ever fire.
  \<open>next_handle\<close> numbers the \<^verbatim>\<open>Timeout\<close> objects. \<open>socket_data\<close> is
  \<^verbatim>\<open>socket.data\<close> of each socket (a field that was never set is \<^verbatim>\<open>undefined\<close>, \<open>None\<close>),
  and \<open>rooms\<close> the rooms each socket has joined.
\<close>

record socket_data =
  sd_sessionId :: "string option"
  sd_participantId :: "string option"
  sd_roomCode :: "string option"

record realtime =
  sessionTimers :: "(string \<times> nat) list"
  intervals :: "nat \<rightharpoonup> interval"
  next_handle :: nat
  emitted :: "emit list"
  socket_data :: "nat \<Rightarrow> socket_data"
  rooms :: "(nat \<times> string) list"

definition no_data :: socket_data where
  "no_data = \<lparr>sd_sessionId = None, sd_participantId = None, sd_roomCode = None\<rparr>"

definition init_realtime :: realtime where
  "init_realtime = \<lparr>sessionTimers = [], intervals = Map.empty, next_handle = 0, emitted = [],
                      socket_data = (\<lambda>sock. no_data), rooms = []\<rparr>"

definition do_emit :: "emit \<Rightarrow> realtime \<Rightarrow> realtime" where
  "do_emit e rt = rt\<lparr>emitted := emitted rt @ [e]\<rparr>"

definition clearInterval :: "nat \<Rightarrow> realtime \<Rightarrow> realtime" where
  "clearInterval h rt = rt\<lparr>intervals := (intervals rt)(h := None)\<rparr>"

definition setInterval :: "interval \<Rightarrow> realtime \<Rightarrow> nat \<times> realtime" where
  "setInterval iv rt =
     (next_handle rt,
      rt\<lparr>intervals := (intervals rt)(next_handle rt \<mapsto> iv), next_handle := Suc (next_handle rt)\<rparr>)"

text \<open>The template string \<^verbatim>\<open>`${sessionId}-${scenarioId}`\<close>.\<close>

definition timerKey :: "string \<Rightarrow> string \<Rightarrow> string" where
  "timerKey sessionId scenarioId = sessionId @ ''-'' @ scenarioId"

text \<open>
  \<^verbatim>\<open>startTimer(sessionId, scenarioId, duration)\<close> of the secure service, and the body of
  the first service's \<^verbatim>\<open>start_timer\<close> handler: the two differ only in the volatile tick.
  \<open>now\<close> is \<^verbatim>\<open>new Date()\<close>.
\<close>

definition startTimer :: "bool \<Rightarrow> nat \<Rightarrow> string \<Rightarrow> string \<Rightarrow> int \<Rightarrow> realtime \<Rightarrow> realtime" where
  "startTimer vol now sessionId scenarioId duration rt =
     (let rt1 = (case map_of (sessionTimers rt) (timerKey sessionId scenarioId) of
                   Some existingTimer \<Rightarrow> clearInterval existingTimer rt
                 | None \<Rightarrow> rt);
          rt2 = do_emit (Emit (Room sessionId) (timer_started sessionId scenarioId duration now)) rt1;
          (timer, rt3) = setInterval \<lparr>iv_sessionId = sessionId, iv_scenarioId = scenarioId,
                                       secondsRemaining = duration, iv_volatile = vol\<rparr> rt2
      in rt3\<lparr>sessionTimers := AList.update (timerKey sessionId scenarioId) timer (sessionTimers rt3)\<rparr>)"

text \<open>
  One firing of the interval callback of handle \<open>h\<close>. A handle that was cleared (or
  never set) does not fire.
\<close>

definition tick :: "nat \<Rightarrow> realtime \<Rightarrow> realtime" where
  "tick h rt =
     (case intervals rt h of
        None \<Rightarrow> rt
      | Some iv \<Rightarrow>
          (let s = secondsRemaining iv - 1;
               rt1 = rt\<lparr>intervals := (intervals rt)(h \<mapsto> iv\<lparr>secondsRemaining := s\<rparr>)\<rparr>;
               ev = timer_tick (iv_sessionId iv) (iv_scenarioId iv) s;
               rt2 = do_emit (if iv_volatile iv then VolatileEmit (Room (iv_sessionId iv)) ev
                              else Emit (Room (iv_sessionId iv)) ev) rt1
           in if s \<le> 0
              then (clearInterval h rt2)
                     \<lparr>sessionTimers :=
                        AList.delete (timerKey (iv_sessionId iv) (iv_scenarioId iv)) (sessionTimers rt2)\<rparr>
              else rt2))"

text \<open>
  \<^verbatim>\<open>clearSessionTimers(sessionId)\<close>, which the first service writes inline in its
  \<^verbatim>\<open>end_session\<close> handler: \<^verbatim>\<open>forEach\<close> over the map, clearing and deleting each entry
  whose key starts with the session id.
\<close>

definition clearSessionTimers :: "string \<Rightarrow> realtime \<Rightarrow> realtime" where
  "clearSessionTimers sessionId rt =
     fold (\<lambda>(key, timer) r.
             if startsWith key sessionId
             then (clearInterval timer r)\<lparr>sessionTimers := AList.delete key (sessionTimers r)\<rparr>
             else r)
          (sessionTimers rt) rt"

text \<open>
  The messages a client sends. \<^verbatim>\<open>start_timer {sessionId, scenarioId, duration}\<close>,
  \<^verbatim>\<open>start_scenario {sessionId, scenarioId, scenarioTitle}\<close>,
  \<^verbatim>\<open>announce_decision {sessionId, scenarioId, decision, pullCount, dontPullCount, totalVotes}\<close>,
  \<^verbatim>\<open>end_session {sessionId, roomCode}\<close>, \<^verbatim>\<open>join_room {sessionId, participantId}\<close>.
\<close>

datatype message =
    start_timer string string int
  | start_scenario string string string
  | announce_decision string string string int int int
  | end_session string string
  | join_room string string
  | leave_room
  | disconnect

definition socket_join :: "nat \<Rightarrow> string \<Rightarrow> realtime \<Rightarrow> realtime" where
  "socket_join sock sessionId rt = rt\<lparr>rooms := List.insert (sock, sessionId) (rooms rt)\<rparr>"

definition socket_leave :: "nat \<Rightarrow> string \<Rightarrow> realtime \<Rightarrow> realtime" where
  "socket_leave sock sessionId rt = rt\<lparr>rooms := removeAll (sock, sessionId) (rooms rt)\<rparr>"

subsection \<open>The first realtime service\<close>

text \<open>
  Source: \<^verbatim>\<open>RealtimeService.setupHandlers\<close>. No handler looks at who sends the message.
  \<open>fault\<close> and \<open>d\<close> are what \<^verbatim>\<open>RoomService.getActiveParticipantCount\<close> meets; when it
  rejects, the \<^verbatim>\<open>async\<close> handler stops there.
\<close>

definition first_on :: "nat \<Rightarrow> nat \<Rightarrow> message \<Rightarrow> error option \<Rightarrow> db \<Rightarrow> realtime \<Rightarrow> realtime" where
  "first_on now sock msg fault d rt =
     (case msg of
        join_room sessionId participantId \<Rightarrow>
          (let rt1 = socket_join sock sessionId rt;
               rt2 = rt1\<lparr>socket_data := (socket_data rt1)
                          (sock := (socket_data rt1 sock)
                             \<lparr>sd_sessionId := Some sessionId, sd_participantId := Some participantId\<rparr>)\<rparr>
           in case getActiveParticipantCount sessionId fault d of
                Inl e \<Rightarrow> rt2
              | Inr activeCount \<Rightarrow>
                  do_emit (Emit (Room sessionId)
                             (participant_joined participantId (Some sessionId) activeCount)) rt2)
      | leave_room \<Rightarrow>
          (case (sd_sessionId (socket_data rt sock), sd_participantId (socket_data rt sock)) of
             (Some sessionId, Some participantId) \<Rightarrow>
               if sessionId \<noteq> [] \<and> participantId \<noteq> []
               then (let rt1 = socket_leave sock sessionId rt
                     in case getActiveParticipantCount sessionId fault d of
                          Inl e \<Rightarrow> rt1
                        | Inr activeCount \<Rightarrow>
                            do_emit (Emit (Room sessionId)
                                       (participant_left participantId (Some sessionId) activeCount)) rt1)
               else rt
           | _ \<Rightarrow> rt)
      | start_timer sessionId scenarioId duration \<Rightarrow>
          startTimer False now sessionId scenarioId duration rt
      | start_scenario sessionId scenarioId scenarioTitle \<Rightarrow>
          do_emit (Emit (Room sessionId) (scenario_started sessionId scenarioId scenarioTitle)) rt
      | announce_decision sessionId scenarioId decision pullCount dontPullCount totalCount \<Rightarrow>
          do_emit (Emit (Room sessionId)
                     (decision_announced sessionId scenarioId decision pullCount dontPullCount totalCount)) rt
      | end_session sessionId rc \<Rightarrow>
          do_emit (Emit (Room sessionId) (session_ended sessionId rc)) (clearSessionTimers sessionId rt)
      | disconnect \<Rightarrow>
          (case (sd_sessionId (socket_data rt sock), sd_participantId (socket_data rt sock)) of
             (Some sessionId, Some participantId) \<Rightarrow>
               if sessionId \<noteq> [] \<and> participantId \<noteq> []
               then (case getActiveParticipantCount sessionId fault d of
                       Inl e \<Rightarrow> rt
                     | Inr activeCount \<Rightarrow>
                         do_emit (Emit (Room sessionId)
                                    (participant_left participantId (Some sessionId) activeCount)) rt)
               else rt
           | _ \<Rightarrow> rt))"

subsection \<open>The secure realtime service\<close>

text \<open>
  Source: \<^verbatim>\<open>RealtimeServiceSecure\<close>. The file imports \<^verbatim>\<open>RoomService\<close> from
  \<^verbatim>\<open>./roomService\<close>: \<^verbatim>\<open>handleParticipantJoined\<close> and \<^verbatim>\<open>handleParticipantLeft\<close> call the
  first service's \<^verbatim>\<open>getActiveParticipantCount\<close>, inside a \<^verbatim>\<open>try\<close> whose \<^verbatim>\<open>catch\<close> only
  logs.
\<close>

definition handleParticipantJoined ::
  "string \<Rightarrow> string \<Rightarrow> string option \<Rightarrow> error option \<Rightarrow> db \<Rightarrow> realtime \<Rightarrow> realtime" where
  "handleParticipantJoined sessionId participantId rc fault d rt =
     (case getActiveParticipantCount sessionId fault d of
        Inl e \<Rightarrow> rt
      | Inr activeCount \<Rightarrow>
          do_emit (Emit (Room sessionId) (participant_joined participantId rc activeCount)) rt)"

definition handleParticipantLeft ::
  "string \<Rightarrow> string \<Rightarrow> string option \<Rightarrow> error option \<Rightarrow> db \<Rightarrow> realtime \<Rightarrow> realtime" where
  "handleParticipantLeft sessionId participantId rc fault d rt =
     (case getActiveParticipantCount sessionId fault d of
        Inl e \<Rightarrow> rt
      | Inr activeCount \<Rightarrow>
          do_emit (Emit (Room sessionId) (participant_left participantId rc activeCount)) rt)"

text \<open>
  A connection that passed the authentication middleware: \<^verbatim>\<open>socket.data\<close> holds the
  fields of the verified token, and the socket joins the room of its session.
\<close>

definition secure_connect ::
  "nat \<Rightarrow> string \<Rightarrow> string \<Rightarrow> string \<Rightarrow> error option \<Rightarrow> db \<Rightarrow> realtime \<Rightarrow> realtime" where
  "secure_connect sock sessionId participantId rc fault d rt =
     (let rt1 = rt\<lparr>socket_data := (socket_data rt)
                      (sock := \<lparr>sd_sessionId = Some sessionId, sd_participantId = Some participantId,
                                sd_roomCode = Some rc\<rparr>)\<rparr>
      in if sessionId \<noteq> [] \<and> participantId \<noteq> []
         then handleParticipantJoined sessionId participantId (Some rc) fault d
                (socket_join sock sessionId rt1)
         else rt1)"

definition unauthorized :: "nat \<Rightarrow> realtime \<Rightarrow> realtime" where
  "unauthorized sock rt = do_emit (Emit (Sock sock) (error_event ''Unauthorized action'')) rt"

definition secure_on ::
  "(string \<Rightarrow> string) \<Rightarrow> nat \<Rightarrow> nat \<Rightarrow> message \<Rightarrow> error option \<Rightarrow> db \<Rightarrow> realtime \<Rightarrow> realtime" where
  "secure_on scrub now sock msg fault d rt =
     (case msg of
        join_room sessionId participantId \<Rightarrow>
          if Some sessionId \<noteq> sd_sessionId (socket_data rt sock)
             \<or> Some participantId \<noteq> sd_participantId (socket_data rt sock)
          then do_emit (Emit (Sock sock) (error_event ''Unauthorized room access'')) rt
          else handleParticipantJoined (sanitizeFingerprint sessionId) (sanitizeFingerprint participantId)
                 (sd_roomCode (socket_data rt sock)) fault d
                 (socket_join sock (sanitizeFingerprint sessionId) rt)
      | leave_room \<Rightarrow>
          (case (sd_sessionId (socket_data rt sock), sd_participantId (socket_data rt sock)) of
             (Some sessionId, Some participantId) \<Rightarrow>
               if sessionId \<noteq> [] \<and> participantId \<noteq> []
               then handleParticipantLeft sessionId participantId (sd_roomCode (socket_data rt sock))
                      fault d (socket_leave sock sessionId rt)
               else rt
           | _ \<Rightarrow> rt)
      | start_timer sessionId scenarioId duration \<Rightarrow>
          if Some sessionId \<noteq> sd_sessionId (socket_data rt sock) then unauthorized sock rt
          else if duration < 10 \<or> duration > 300
          then do_emit (Emit (Sock sock) (error_event ''Invalid timer duration'')) rt
          else startTimer True now sessionId scenarioId duration rt
      | start_scenario sessionId scenarioId scenarioTitle \<Rightarrow>
          if Some sessionId \<noteq> sd_sessionId (socket_data rt sock) then unauthorized sock rt
          else do_emit (Emit (Room sessionId)
                          (scenario_started sessionId scenarioId (sanitizeText scrub None scenarioTitle))) rt
      | announce_decision sessionId scenarioId decision pullCount dontPullCount totalCount \<Rightarrow>
          if Some sessionId \<noteq> sd_sessionId (socket_data rt sock) then unauthorized sock rt
          else if decision \<notin> set [''ai_track'', ''non_ai_track'', ''tie'']
          then do_emit (Emit (Sock sock) (error_event ''Invalid decision value'')) rt
          else do_emit (Emit (Room sessionId)
                          (decision_announced sessionId scenarioId decision
                             (max 0 pullCount) (max 0 dontPullCount) (max 0 totalCount))) rt
      | end_session sessionId rc \<Rightarrow>
          if Some sessionId \<noteq> sd_sessionId (socket_data rt sock) then unauthorized sock rt
          else do_emit (Emit (Room sessionId) (session_ended sessionId (sanitizeRoomCode rc)))
                 (clearSessionTimers sessionId rt)
      | disconnect \<Rightarrow>
          (case (sd_sessionId (socket_data rt sock), sd_participantId (socket_data rt sock)) of
             (Some sessionId, Some participantId) \<Rightarrow>
               if sessionId \<noteq> [] \<and> participantId \<noteq> []
               then handleParticipantLeft sessionId participantId (sd_roomCode (socket_data rt sock))
                      fault d rt
               else rt
           | _ \<Rightarrow> rt))"

text \<open>
  The session a state-mutating message names: \<^verbatim>\<open>start_timer\<close>, \<^verbatim>\<open>start_scenario\<close>,
  \<^verbatim>\<open>announce_decision\<close> and \<^verbatim>\<open>end_session\<close> carry a \<^verbatim>\<open>sessionId\<close>.
\<close>

definition mutating_session :: "message \<Rightarrow> string option" where
  "mutating_session msg =
     (case msg of
        start_timer sessionId scenarioId duration \<Rightarrow> Some sessionId
      | start_scenario sessionId scenarioId scenarioTitle \<Rightarrow> Some sessionId
      | announce_decision sessionId scenarioId decision pullCount dontPullCount totalCount \<Rightarrow> Some sessionId
      | end_session sessionId rc \<Rightarrow> Some sessionId
      | _ \<Rightarrow> None)"

text \<open>
  An example state of the first service: socket 7 has joined session \<open>s1\<close>, and socket
  8 has started a timer for scenario \<open>x\<close> of session \<open>s2\<close>.
\<close>

definition crowd :: realtime where
  "crowd = first_on 1 8 (start_timer ''s2'' ''x'' 30) None example_db
             (first_on 0 7 (join_room ''s1'' ''p9'') None example_db init_realtime)"

subsection \<open>The states a service reaches\<close>

text \<open>
  A service starts with no timer and no socket. The first service then handles any
  message of any socket; the secure service accepts authenticated connections and handles
  their messages; and any interval that is set may fire.
\<close>

inductive reachable :: "bool \<Rightarrow> realtime \<Rightarrow> bool" where
  start: "reachable sec init_realtime"
| first_message: "reachable False rt \<Longrightarrow> reachable False (first_on now sock msg fault d rt)"
| secure_connection: "reachable True rt \<Longrightarrow> reachable True (secure_connect sock sid pid rc fault d rt)"
| secure_message: "reachable True rt \<Longrightarrow> reachable True (secure_on scrub now sock msg fault d rt)"
| interval_fires: "reachable sec rt \<Longrightarrow> reachable sec (tick h rt)"

text \<open>The key under which the timer of an interval is registered.\<close>

definition key_of :: "interval \<Rightarrow> string" where
  "key_of iv = timerKey (iv_sessionId iv) (iv_scenarioId iv)"

text \<open>
  What the timer code keeps true: an interval that is set is the one its key is mapped
  to, handles not handed out yet are not set, and the map holds handed-out handles only.
\<close>

definition timers_inv :: "realtime \<Rightarrow> bool" where
  "timers_inv rt =
     ((\<forall>h iv. intervals rt h = Some iv \<longrightarrow> map_of (sessionTimers rt) (key_of iv) = Some h)
      \<and> (\<forall>h. next_handle rt \<le> h \<longrightarrow> intervals rt h = None)
      \<and> (\<forall>k h. map_of (sessionTimers rt) k = Some h \<longrightarrow> h < next_handle rt))"

text \<open>The body of the \<^verbatim>\<open>forEach\<close> in \<open>clearSessionTimers\<close>.\<close>

definition clear_step :: "string \<Rightarrow> string \<times> nat \<Rightarrow> realtime \<Rightarrow> realtime" where
  "clear_step sid = (\<lambda>(key, timer) r.
             if startsWith key sid
             then (clearInterval timer r)\<lparr>sessionTimers := AList.delete key (sessionTimers r)\<rparr>
             else r)"

text \<open>
  The interval of handle \<open>h\<close> fires \<open>k\<close> times; the emit of one tick; and the ticks of a
  countdown of \<open>duration\<close> seconds, the first \<open>k\<close> of them.
\<close>

definition fires :: "nat \<Rightarrow> nat \<Rightarrow> realtime \<Rightarrow> realtime" where
  "fires k h rt = (tick h ^^ k) rt"

definition tick_emit :: "bool \<Rightarrow> string \<Rightarrow> string \<Rightarrow> int \<Rightarrow> emit" where
  "tick_emit vol sessionId scenarioId s =
     (if vol then VolatileEmit (Room sessionId) (timer_tick sessionId scenarioId s)
      else Emit (Room sessionId) (timer_tick sessionId scenarioId s))"

definition countdown :: "bool \<Rightarrow> string \<Rightarrow> string \<Rightarrow> int \<Rightarrow> nat \<Rightarrow> emit list" where
  "countdown vol sessionId scenarioId duration k =
     map (\<lambda>i. tick_emit vol sessionId scenarioId (duration - 1 - int i)) [0..<k]"

text \<open>The example database with a round running and no vote cast yet.\<close>

definition unvoted_db :: db where
  "unvoted_db = running_db\<lparr>votes := []\<rparr>"


section \<open>Properties of the resilience layer\<close>

lemma retry_from_done:
  "\<not> attempt < maxRetries cfg \<Longrightarrow>
     retry_from cfg fn world attempt lastError st
       = (((case lastError of
              Some e \<Rightarrow> Inl e
            | None \<Rightarrow> Inl (Error ''Cannot read properties of undefined (reading message)'')), st), [])"
  by (subst retry_from.simps) simp

lemma retry_from_ok:
  "attempt < maxRetries cfg \<Longrightarrow> fn (world attempt) st = (Inr v, st') \<Longrightarrow>
     retry_from cfg fn world attempt lastError st = ((Inr v, st'), [Inr v])"
  by (subst retry_from.simps) simp


lemma retry_from_again:
  "attempt < maxRetries cfg \<Longrightarrow> fn (world attempt) st = (Inl e, st') \<Longrightarrow> shouldRetry cfg e \<Longrightarrow>
     retry_from cfg fn world attempt lastError st
       = (fst (retry_from cfg fn world (attempt + 1) (Some e) st'),
          Inl e # snd (retry_from cfg fn world (attempt + 1) (Some e) st'))"
  by (subst retry_from.simps) (simp split: prod.splits)















section \<open>Properties of room creation\<close>

lemma chars_length: "length chars = 32"
  by (simp add: chars_def)

lemma chars_unambiguous:
  "CHR ''0'' \<notin> set chars \<and> CHR ''O'' \<notin> set chars \<and> CHR ''1'' \<notin> set chars \<and> CHR ''I'' \<notin> set chars"
  by (simp add: chars_def)

lemma pick_char_in:
  assumes "0 \<le> r" and "r < 1"
  shows "\<exists>c \<in> set chars. pick_char r = [c]"
proof -
  let ?i = "\<lfloor>r * 32\<rfloor>"
  from assms have "0 \<le> r * 32" and "r * 32 < 32" by simp_all
  then have lo: "0 \<le> ?i" and hi: "?i < 32" by (simp_all add: floor_less_iff)
  have "nat ?i < 32" using lo hi by linarith
  then have "nat ?i < length chars" by (simp only: chars_length)
  then have "chars ! nat ?i \<in> set chars" by (rule nth_mem)
  moreover have "pick_char r = [chars ! nat ?i]"
    using lo hi by (simp add: pick_char_def chars_length)
  ultimately show ?thesis by blast
qed

lemma concat_singletons:
  assumes "\<forall>x \<in> set xs. \<exists>c \<in> A. f x = [c]"
  shows "length (concat (map f xs)) = length xs \<and> set (concat (map f xs)) \<subseteq> A"
  using assms by (induction xs) auto

lemma generateSecureRoomCode_alphabet:
  assumes "\<forall>i. 0 \<le> rnd i \<and> rnd i < 1"
  shows "length (fst (generateSecureRoomCode rnd pos)) = 6
       \<and> set (fst (generateSecureRoomCode rnd pos)) \<subseteq> set chars
       \<and> snd (generateSecureRoomCode rnd pos) = pos + 6"
proof -
  have "\<forall>i \<in> set [0..<6]. \<exists>c \<in> set chars. pick_char (rnd (pos + i)) = [c]"
    using assms pick_char_in by blast
  from concat_singletons [OF this] show ?thesis
    by (simp add: generateSecureRoomCode_def)
qed

lemma gen_snd: "snd (generateSecureRoomCode rnd pos) = pos + 6"
  by (simp add: generateSecureRoomCode_def)

lemma loop_done: "\<not> attempts < 10 \<Longrightarrow>
    createRoom_loop attempts cfg rnd pos new_id d = (Inl (Error ''Failed to generate unique room code''), d, pos)"
  by (subst createRoom_loop.simps) simp

lemma loop_free:
  "attempts < 10 \<Longrightarrow> \<not> taken d (code_at rnd pos 0) \<Longrightarrow>
    createRoom_loop attempts cfg rnd pos new_id d
      = (let newRoom = \<lparr>s_id = new_id, roomCode = code_at rnd pos 0, s_endedAt = None,
                         s_config = cfg, s_status = Waiting\<rparr>
         in case insert_session newRoom d of
              Inl e \<Rightarrow> (Inl e, d, pos + 6)
            | Inr d' \<Rightarrow> (Inr newRoom, d', pos + 6))"
  by (subst createRoom_loop.simps)
     (simp add: taken_def code_at_def generateSecureRoomCode_def split: prod.splits)

lemma loop_taken:
  "attempts < 10 \<Longrightarrow> taken d (code_at rnd pos 0) \<Longrightarrow>
    createRoom_loop attempts cfg rnd pos new_id d = createRoom_loop (attempts + 1) cfg rnd (pos + 6) new_id d"
  by (subst createRoom_loop.simps)
     (simp add: taken_def code_at_def generateSecureRoomCode_def split: prod.splits)

lemma code_at_shift: "code_at rnd (pos + 6) k = code_at rnd pos (Suc k)"
  by (simp add: code_at_def add.assoc add.commute)

lemma createRoom_loop_spec:
  "(\<exists>k room. attempts + k < 10 \<and> (\<forall>j < k. taken d (code_at rnd pos j)) \<and> \<not> taken d (code_at rnd pos k)
       \<and> roomCode room = code_at rnd pos k
       \<and> snd (snd (createRoom_loop attempts cfg rnd pos new_id d)) = pos + 6 * (k + 1)
       \<and> (fst (createRoom_loop attempts cfg rnd pos new_id d) = Inr room
            \<and> sessions (fst (snd (createRoom_loop attempts cfg rnd pos new_id d))) = sessions d @ [room]
          \<or> (\<exists>e. fst (createRoom_loop attempts cfg rnd pos new_id d) = Inl e \<and> insert_session room d = Inl e)
            \<and> fst (snd (createRoom_loop attempts cfg rnd pos new_id d)) = d))
   \<or> ((\<forall>j. attempts + j < 10 \<longrightarrow> taken d (code_at rnd pos j))
       \<and> createRoom_loop attempts cfg rnd pos new_id d
            = (Inl (Error ''Failed to generate unique room code''), d, pos + 6 * (10 - attempts)))"
proof (induction attempts cfg rnd pos new_id d rule: createRoom_loop.induct)
  case (1 attempts cfg rnd pos new_id d)
  show ?case
  proof (cases "attempts < 10")
    case False
    then show ?thesis by (simp add: loop_done)
  next
    case lt: True
    show ?thesis
    proof (cases "taken d (code_at rnd pos 0)")
      case False
      let ?room = "\<lparr>s_id = new_id, roomCode = code_at rnd pos 0, s_endedAt = None,
                         s_config = cfg, s_status = Waiting\<rparr>"
      have "attempts + 0 < 10 \<and> (\<forall>j < 0. taken d (code_at rnd pos j)) \<and> \<not> taken d (code_at rnd pos 0)
       \<and> roomCode ?room = code_at rnd pos 0
       \<and> snd (snd (createRoom_loop attempts cfg rnd pos new_id d)) = pos + 6 * (0 + 1)
       \<and> (fst (createRoom_loop attempts cfg rnd pos new_id d) = Inr ?room
            \<and> sessions (fst (snd (createRoom_loop attempts cfg rnd pos new_id d))) = sessions d @ [?room]
          \<or> (\<exists>e. fst (createRoom_loop attempts cfg rnd pos new_id d) = Inl e \<and> insert_session ?room d = Inl e)
            \<and> fst (snd (createRoom_loop attempts cfg rnd pos new_id d)) = d)"
        using lt False
        by (cases "insert_session ?room d")
           (auto simp: loop_free Let_def insert_session_def split: if_splits)
      then show ?thesis by blast
    next
      case tk: True
      have eq: "createRoom_loop attempts cfg rnd pos new_id d
                  = createRoom_loop (attempts + 1) cfg rnd (pos + 6) new_id d"
        using lt tk by (rule loop_taken)
      have g: "generateSecureRoomCode rnd pos = (code_at rnd pos 0, pos + 6)"
        by (simp add: code_at_def generateSecureRoomCode_def)
      have nf: "\<not> [s \<leftarrow> sessions d. roomCode s = code_at rnd pos 0] = []"
        using tk by (simp add: taken_def)
      note ih = "1.IH" [OF lt g [symmetric] nf]
      let ?next = "createRoom_loop (attempts + 1) cfg rnd (pos + 6) new_id d"
      from ih consider
        (found) k room where "attempts + 1 + k < 10" "\<forall>j<k. taken d (code_at rnd (pos + 6) j)"
          "\<not> taken d (code_at rnd (pos + 6) k)" "roomCode room = code_at rnd (pos + 6) k"
          "snd (snd ?next) = pos + 6 + 6 * (k + 1)"
          "fst ?next = Inr room \<and> sessions (fst (snd ?next)) = sessions d @ [room]
           \<or> (\<exists>e. fst ?next = Inl e \<and> insert_session room d = Inl e) \<and> fst (snd ?next) = d"
      | (exhausted) "\<forall>j. attempts + 1 + j < 10 \<longrightarrow> taken d (code_at rnd (pos + 6) j)"
          "?next = (Inl (Error ''Failed to generate unique room code''), d, pos + 6 + 6 * (10 - (attempts + 1)))"
        by blast
      then show ?thesis
      proof cases
        case found
        note a = found(1-5) and b = found(6)
        have all: "\<forall>j < Suc k. taken d (code_at rnd pos j)"
        proof (intro allI impI)
          fix j assume "j < Suc k"
          show "taken d (code_at rnd pos j)"
          proof (cases j)
            case 0
            with tk show ?thesis by simp
          next
            case (Suc i)
            with \<open>j < Suc k\<close> a(2) have "taken d (code_at rnd (pos + 6) i)" by simp
            with Suc show ?thesis by (simp add: code_at_shift)
          qed
        qed
        have "attempts + Suc k < 10 \<and> (\<forall>j < Suc k. taken d (code_at rnd pos j))
           \<and> \<not> taken d (code_at rnd pos (Suc k)) \<and> roomCode room = code_at rnd pos (Suc k)
           \<and> snd (snd (createRoom_loop attempts cfg rnd pos new_id d)) = pos + 6 * (Suc k + 1)"
          using a all by (simp add: eq code_at_shift)
        with b show ?thesis unfolding eq by blast
      next
        case exhausted
        note a = exhausted(1) and b = exhausted(2)
        have all: "\<forall>j. attempts + j < 10 \<longrightarrow> taken d (code_at rnd pos j)"
        proof (intro allI impI)
          fix j assume lj: "attempts + j < 10"
          show "taken d (code_at rnd pos j)"
          proof (cases j)
            case 0
            with tk show ?thesis by simp
          next
            case (Suc i)
            with lj a have "taken d (code_at rnd (pos + 6) i)" by simp
            with Suc show ?thesis by (simp add: code_at_shift)
          qed
        qed
        have "pos + 6 + 6 * (10 - (attempts + 1)) = pos + 6 * (10 - attempts)"
          using lt by simp
        with all b show ?thesis by (simp add: eq)
      qed
    qed
  qed
qed


lemma createRoomEnhanced_spec:
  assumes rnd: "\<forall>i. 0 \<le> rnd i \<and> rnd i < 1"
  shows "(\<forall>room. fst (createRoomEnhanced cfg rnd pos new_id d) = Inr room
            \<longrightarrow> length (roomCode room) = 6 \<and> set (roomCode room) \<subseteq> set chars
                \<and> \<not> taken d (roomCode room)
                \<and> (\<exists>k < 10. roomCode room = code_at rnd pos k \<and> (\<forall>j < k. taken d (code_at rnd pos j))))
       \<and> snd (snd (createRoomEnhanced cfg rnd pos new_id d)) \<le> pos + 60
       \<and> (10 \<le> timerDuration (defaultConfig cfg) \<and> timerDuration (defaultConfig cfg) \<le> 300
          \<and> 1 \<le> maxParticipants (defaultConfig cfg) \<and> maxParticipants (defaultConfig cfg) \<le> 500
          \<and> (\<forall>j < 10. taken d (code_at rnd pos j))
            \<longrightarrow> createRoomEnhanced cfg rnd pos new_id d
                  = (Inl (Error ''Failed to generate unique room code''), d, pos + 60))"
proof -
  let ?c = "defaultConfig cfg"
  have alpha: "length (code_at rnd pos k) = 6 \<and> set (code_at rnd pos k) \<subseteq> set chars" for k
    using generateSecureRoomCode_alphabet [OF rnd] by (simp add: code_at_def)
  show ?thesis
  proof (cases "timerDuration ?c < 10 \<or> timerDuration ?c > 300 \<or> maxParticipants ?c < 1 \<or> maxParticipants ?c > 500")
    case True
    then show ?thesis by (auto simp: createRoomEnhanced_def Let_def)
  next
    case False
    then have eq: "createRoomEnhanced cfg rnd pos new_id d = createRoom_loop 0 ?c rnd pos new_id d"
      by (auto simp: createRoomEnhanced_def Let_def)
    let ?r = "createRoom_loop 0 ?c rnd pos new_id d"
    from createRoom_loop_spec [of 0 d rnd pos ?c new_id] consider
      (found) k room where "k < 10" "\<forall>j<k. taken d (code_at rnd pos j)" "\<not> taken d (code_at rnd pos k)"
          "roomCode room = code_at rnd pos k" "snd (snd ?r) = pos + 6 * (k + 1)"
          "fst ?r = Inr room \<or> (\<exists>e. fst ?r = Inl e)"
      | (exhausted) "\<forall>j < 10. taken d (code_at rnd pos j)"
          "?r = (Inl (Error ''Failed to generate unique room code''), d, pos + 60)"
      by auto
    then show ?thesis
    proof cases
      case found
      have 1: "length (roomCode room') = 6 \<and> set (roomCode room') \<subseteq> set chars
                \<and> \<not> taken d (roomCode room')
                \<and> (\<exists>k < 10. roomCode room' = code_at rnd pos k \<and> (\<forall>j < k. taken d (code_at rnd pos j)))"
        if "fst ?r = Inr room'" for room'
      proof -
        from that found(6) have "room' = room" by auto
        with found alpha [of k] show ?thesis by auto
      qed
      have 2: "snd (snd ?r) \<le> pos + 60" using found(1,5) by simp
      have 3: "\<not> (\<forall>j < 10. taken d (code_at rnd pos j))" using found(1,3) by blast
      from 1 2 3 show ?thesis unfolding eq by blast
    next
      case exhausted
      then show ?thesis unfolding eq by simp
    qed
  qed
qed

text \<open>
  Claim C3. The room code of a created room has six characters of an alphabet without
  \<open>0\<close>, \<open>O\<close>, \<open>1\<close> and \<open>I\<close>, and a code that collides is regenerated, ten codes at most,
  before \<^verbatim>\<open>createRoom\<close> fails. The enhanced service does so (\<open>chars_unambiguous\<close>,
  \<open>createRoomEnhanced_spec\<close>). The first service, the one the route
  \<^verbatim>\<open>POST /rooms/create\<close> calls, does not: its code is \<^verbatim>\<open>nanoid(6).toUpperCase()\<close>, over
  the alphabet \<^verbatim>\<open>A-Z0-9_-\<close>, and it is inserted with no look at the codes taken and no
  second try. Below, nanoid returns \<^verbatim>\<open>0o1i-_\<close> and the room gets the code \<^verbatim>\<open>0O1I-_\<close>;
  and nanoid returns \<^verbatim>\<open>room01\<close> while a room holds \<^verbatim>\<open>ROOM01\<close>, and \<^verbatim>\<open>createRoom\<close> fails
  at once with the unique violation of the insert.
\<close>

theorem ambiguous_room_code:
  "list_all nanoid_alphabet ''0o1i-_''
   \<and> fst (createRoom no_config ''0o1i-_'' ''s9'' example_db)
       = Inr \<lparr>s_id = ''s9'', roomCode = ''0O1I-_'', s_endedAt = None,
              s_config = defaultConfig no_config, s_status = Waiting\<rparr>
   \<and> createRoom no_config ''room01'' ''s9'' example_db
       = (Inl (Error ''duplicate key value violates unique constraint sessions_room_code_unique''), example_db)"
proof -
  have a: "list_all nanoid_alphabet ''0o1i-_''" by code_simp
  have g1: "generateRoomCode ''0o1i-_'' = ''0O1I-_''" by code_simp
  have g2: "generateRoomCode ''room01'' = ''ROOM01''" by code_simp
  have b: "fst (createRoom no_config ''0o1i-_'' ''s9'' example_db)
       = Inr \<lparr>s_id = ''s9'', roomCode = ''0O1I-_'', s_endedAt = None,
              s_config = defaultConfig no_config, s_status = Waiting\<rparr>"
    by (simp add: createRoom_def g1 insert_session_def example_db_def room1_def room2_def Let_def)
  have c: "createRoom no_config ''room01'' ''s9'' example_db
       = (Inl (Error ''duplicate key value violates unique constraint sessions_room_code_unique''), example_db)"
    by (simp add: createRoom_def g2 insert_session_def example_db_def room1_def room2_def Let_def)
  from a b c show ?thesis by simp
qed

section \<open>Properties of the vote ledger\<close>

lemma submitVoteEnhanced_duplicate:
  assumes "existingVote d sessionId participantId scenarioId \<noteq> []"
    and "vote_str = ''pull'' \<or> vote_str = ''dont_pull''"
  shows "submitVoteEnhanced scrub sessionId participantId scenarioId vote_str rationale mitigation
           t0 t1 vid rid mid d
         = (Inl (Error ''Participant has already voted for this scenario''), d)"
  using assms by (auto simp: submitVoteEnhanced_def Let_def)

lemma insert_vote_votes: "insert_vote v d = Inr d' \<Longrightarrow> votes d' = votes d @ [v]"
  by (auto simp: insert_vote_def split: if_splits)

lemma insert_text_votes:
  "insert_text insert_rationale text new_id vid d = Inr d' \<Longrightarrow> votes d' = votes d"
  "insert_text insert_mitigation text new_id vid d = Inr d' \<Longrightarrow> votes d' = votes d"
  by (auto simp: insert_text_def insert_rationale_def insert_mitigation_def split: option.splits if_splits)

lemma submitVoteEnhanced_votes:
  "votes (snd (submitVoteEnhanced scrub sessionId participantId scenarioId vote_str rationale mitigation
           t0 t1 vid rid mid d)) = votes d
   \<or> (existingVote d sessionId participantId scenarioId = []
      \<and> (\<exists>v. votes (snd (submitVoteEnhanced scrub sessionId participantId scenarioId vote_str rationale
                  mitigation t0 t1 vid rid mid d)) = votes d @ [v]
             \<and> v_sessionId v = sessionId \<and> v_participantId v = participantId \<and> v_scenarioId v = scenarioId))"
proof -
  let ?r = "submitVoteEnhanced scrub sessionId participantId scenarioId vote_str rationale mitigation
           t0 t1 vid rid mid d"
  show ?thesis
  proof (cases "vote_str \<noteq> ''pull'' \<and> vote_str \<noteq> ''dont_pull''")
    case True
    then show ?thesis by (simp add: submitVoteEnhanced_def)
  next
    case valid: False
    show ?thesis
    proof (cases "existingVote d sessionId participantId scenarioId = []")
      case False
      with valid show ?thesis by (simp add: submitVoteEnhanced_def Let_def)
    next
      case none: True
      from valid obtain vt where pv: "parse_vote vote_str = Inr vt"
        by (auto simp: parse_vote_def)
      let ?v = "\<lparr>v_id = vid, v_sessionId = sessionId, v_participantId = participantId,
                  v_scenarioId = scenarioId, v_vote = vt, latencyMs = Some (int t1 - int t0)\<rparr>"
      show ?thesis
      proof (cases "insert_vote ?v d")
        case (Inl e)
        with valid none pv show ?thesis by (auto simp: submitVoteEnhanced_def Let_def)
      next
        case (Inr d1)
        note iv = Inr
        show ?thesis
        proof (cases "insert_text insert_rationale (sanitized (sanitizeRationale scrub) rationale) rid vid d1")
          case (Inl e)
          with valid none pv iv show ?thesis by (auto simp: submitVoteEnhanced_def Let_def)
        next
          case (Inr d2)
          note ir = Inr
          show ?thesis
          proof (cases "insert_text insert_mitigation (sanitized (sanitizeMitigation scrub) mitigation) mid vid d2")
            case (Inl e)
            with valid none pv iv ir show ?thesis by (auto simp: submitVoteEnhanced_def Let_def)
          next
            case (Inr d3)
            from valid none pv iv ir Inr have "snd ?r = d3"
              by (auto simp: submitVoteEnhanced_def Let_def)
            with insert_text_votes(2) [OF Inr] insert_text_votes(1) [OF ir] insert_vote_votes [OF iv] none
            show ?thesis by simp
          qed
        qed
      qed
    qed
  qed
qed

lemma submitVoteEnhanced_keeps_one_vote:
  assumes "one_vote_per_triple d"
  shows "one_vote_per_triple (snd (submitVoteEnhanced scrub sessionId participantId scenarioId vote_str
           rationale mitigation t0 t1 vid rid mid d))"
proof -
  let ?d = "snd (submitVoteEnhanced scrub sessionId participantId scenarioId vote_str
           rationale mitigation t0 t1 vid rid mid d)"
  from submitVoteEnhanced_votes [of scrub sessionId participantId scenarioId vote_str rationale mitigation t0 t1 vid rid mid d]
  consider "votes ?d = votes d"
    | v where "existingVote d sessionId participantId scenarioId = []" "votes ?d = votes d @ [v]"
        "v_sessionId v = sessionId" "v_participantId v = participantId" "v_scenarioId v = scenarioId"
    by blast
  then show ?thesis
  proof cases
    case 1
    with assms show ?thesis by (simp add: one_vote_per_triple_def existingVote_def)
  next
    case 2
    show ?thesis
      unfolding one_vote_per_triple_def
    proof (intro allI)
      fix s p c
      show "length (existingVote ?d s p c) \<le> 1"
      proof (cases "s = sessionId \<and> p = participantId \<and> c = scenarioId")
        case True
        with 2 show ?thesis by (simp add: existingVote_def)
      next
        case False
        with 2 have "existingVote ?d s p c = existingVote d s p c"
          by (auto simp: existingVote_def)
        with assms show ?thesis by (simp add: one_vote_per_triple_def)
      qed
    qed
  qed
qed

text \<open>
  Claim C1. At most one vote exists for a (session, participant, scenario) triple: a
  \<^verbatim>\<open>submitVote\<close> for a triple that has a vote is rejected and inserts nothing. The
  enhanced service does so (\<open>submitVoteEnhanced_duplicate\<close>) and keeps the invariant
  (\<open>submitVoteEnhanced_keeps_one_vote\<close>). The first service, the one the route
  \<^verbatim>\<open>POST /votes\<close> calls, does not: it inserts with no check, and the votes table has no
  unique constraint on the triple. Below, the participant who voted \<^verbatim>\<open>pull\<close> submits
  \<^verbatim>\<open>dont_pull\<close> for the same scenario: the first service returns the new vote and the
  triple has two rows; the enhanced service rejects the same call.
\<close>

theorem duplicate_vote_accepted:
  "existingVote example_db ''s2'' ''p1'' ''x'' = [bobs_vote]
   \<and> submitVote ''s2'' ''p1'' ''x'' ''dont_pull'' None None 0 7 ''v2'' ''r2'' ''m2'' example_db
       = (Inr second_vote, example_db\<lparr>votes := [bobs_vote, second_vote]\<rparr>)
   \<and> existingVote (example_db\<lparr>votes := [bobs_vote, second_vote]\<rparr>) ''s2'' ''p1'' ''x''
       = [bobs_vote, second_vote]
   \<and> submitVoteEnhanced scrub ''s2'' ''p1'' ''x'' ''dont_pull'' None None 0 7 ''v2'' ''r2'' ''m2'' example_db
       = (Inl (Error ''Participant has already voted for this scenario''), example_db)"
proof -
  have ex: "existingVote example_db ''s2'' ''p1'' ''x'' = [bobs_vote]"
    by (simp add: existingVote_def example_db_def bobs_vote_def)
  have pv: "parse_vote ''dont_pull'' = Inr DontPull"
    by (simp add: parse_vote_def)
  have iv: "insert_vote second_vote example_db = Inr (example_db\<lparr>votes := [bobs_vote, second_vote]\<rparr>)"
    by (simp add: insert_vote_def second_vote_def example_db_def bobs_vote_def bob_def room1_def room2_def)
  have sv: "submitVote ''s2'' ''p1'' ''x'' ''dont_pull'' None None 0 7 ''v2'' ''r2'' ''m2'' example_db
       = (Inr second_vote, example_db\<lparr>votes := [bobs_vote, second_vote]\<rparr>)"
    using iv by (simp add: submitVote_def pv second_vote_def Let_def insert_text_def)
  have ex2: "existingVote (example_db\<lparr>votes := [bobs_vote, second_vote]\<rparr>) ''s2'' ''p1'' ''x''
       = [bobs_vote, second_vote]"
    by (simp add: existingVote_def bobs_vote_def second_vote_def)
  have en: "submitVoteEnhanced scrub ''s2'' ''p1'' ''x'' ''dont_pull'' None None 0 7 ''v2'' ''r2'' ''m2'' example_db
       = (Inl (Error ''Participant has already voted for this scenario''), example_db)"
    by (rule submitVoteEnhanced_duplicate) (simp_all add: ex)
  show ?thesis using ex sv ex2 en by simp
qed

section \<open>Properties of the vote tally\<close>

lemma distinct_labels:
  fixes ls :: "vote_type list"
  assumes "distinct ls"
  shows "ls = [] \<or> ls = [Pull] \<or> ls = [DontPull] \<or> ls = [Pull, DontPull] \<or> ls = [DontPull, Pull]"
proof (cases ls)
  case Nil
  then show ?thesis by simp
next
  case (Cons a as)
  note c1 = Cons
  show ?thesis
  proof (cases as)
    case Nil
    with c1 show ?thesis by (cases a) simp_all
  next
    case (Cons b bs)
    note c2 = Cons
    show ?thesis
    proof (cases bs)
      case Nil
      with c1 c2 assms show ?thesis by (cases a; cases b) simp_all
    next
      case (Cons c cs)
      with c1 c2 assms show ?thesis by (cases a; cases b; cases c) simp_all
    qed
  qed
qed

lemma count_split:
  fixes lab :: "'a \<Rightarrow> vote_type"
  shows "length [x \<leftarrow> xs. lab x = Pull] + length [x \<leftarrow> xs. lab x = DontPull] = length xs"
proof -
  have "(\<lambda>x. lab x = DontPull) = (\<lambda>x. \<not> lab x = Pull)"
    by (rule ext) (case_tac "lab x", simp_all)
  then show ?thesis
    by (simp add: sum_length_filter_compl)
qed

lemma count_absent:
  "l \<notin> set (map lab xs) \<Longrightarrow> [x \<leftarrow> xs. lab x = l] = []"
  by (induction xs) auto

lemma labels_cases:
  fixes lab :: "'a \<Rightarrow> vote_type"
  shows "(remdups (map lab xs) = [] \<and> xs = [])
       \<or> (remdups (map lab xs) = [Pull] \<and> [x \<leftarrow> xs. lab x = DontPull] = [])
       \<or> (remdups (map lab xs) = [DontPull] \<and> [x \<leftarrow> xs. lab x = Pull] = [])
       \<or> remdups (map lab xs) = [Pull, DontPull]
       \<or> remdups (map lab xs) = [DontPull, Pull]"
proof -
  have s: "set (remdups (map lab xs)) = set (map lab xs)" by simp
  from distinct_labels [of "remdups (map lab xs)"]
  consider "remdups (map lab xs) = []" | "remdups (map lab xs) = [Pull]" | "remdups (map lab xs) = [DontPull]"
    | "remdups (map lab xs) = [Pull, DontPull]" | "remdups (map lab xs) = [DontPull, Pull]"
    by auto
  then show ?thesis
  proof cases
    case 1
    then have "xs = []" by simp
    with 1 show ?thesis by simp
  next
    case 2
    with s have "DontPull \<notin> set (map lab xs)" by (metis list.set(1) list.simps(15) singletonD vote_type.distinct(1))
    with 2 show ?thesis by (simp add: count_absent)
  next
    case 3
    with s have "Pull \<notin> set (map lab xs)" by (metis list.set(1) list.simps(15) singletonD vote_type.distinct(1))
    with 3 show ?thesis by (simp add: count_absent)
  next
    case 4
    then show ?thesis by simp
  next
    case 5
    then show ?thesis by simp
  qed
qed

lemma getVoteSummary_tally:
  "totalVotes (getVoteSummary sessionId scenarioId d)
     = pullVotes (getVoteSummary sessionId scenarioId d) + dontPullVotes (getVoteSummary sessionId scenarioId d)
   \<and> totalVotes (getVoteSummary sessionId scenarioId d) = int (length (vote_rows d sessionId scenarioId))"
proof -
  let ?vs = "vote_rows d sessionId scenarioId"
  note c = count_split [of v_vote ?vs]
  from labels_cases [of v_vote ?vs] show ?thesis
    using c by (elim disjE conjE) (simp_all add: getVoteSummary_def group_by_vote_def summary_step_def)
qed

lemma vote_summary_tally:
  "totalVotes (vote_summary sessionId scenarioId d)
     = pullVotes (vote_summary sessionId scenarioId d) + dontPullVotes (vote_summary sessionId scenarioId d)
   \<and> totalVotes (vote_summary sessionId scenarioId d) = int (length (joined_rows d sessionId scenarioId))"
proof -
  let ?js = "joined_rows d sessionId scenarioId"
  note c = count_split [of "\<lambda>j. v_vote (fst j)" ?js]
  from labels_cases [of "\<lambda>j. v_vote (fst j)" ?js] show ?thesis
    using c by (elim disjE conjE) (simp_all add: vote_summary_def group_by_vote_enh_def summary_step_enh_def)
qed

lemma joined_rows_length:
  assumes "one_rationale_per_vote d"
  shows "length (joined_rows d sessionId scenarioId) = length (vote_rows d sessionId scenarioId)"
proof -
  have sub: "set (vote_rows d sessionId scenarioId) \<subseteq> set (votes d)"
    by (auto simp: vote_rows_def)
  have "length (concat (map (\<lambda>v. case [r \<leftarrow> rationales d. voteId r = v_id v] of
                         [] \<Rightarrow> [(v, None)]
                       | rs \<Rightarrow> map (\<lambda>r. (v, Some r)) rs) vs)) = length vs"
    if "set vs \<subseteq> set (votes d)" for vs
    using that
  proof (induction vs)
    case Nil
    show ?case by simp
  next
    case (Cons v vs)
    then have "length [r \<leftarrow> rationales d. voteId r = v_id v] \<le> 1"
      using assms by (simp add: one_rationale_per_vote_def)
    then have "length (case [r \<leftarrow> rationales d. voteId r = v_id v] of
                         [] \<Rightarrow> [(v, None)]
                       | rs \<Rightarrow> map (\<lambda>r. (v, Some r)) rs) = 1"
      by (cases "[r \<leftarrow> rationales d. voteId r = v_id v]") simp_all
    with Cons show ?case by simp
  qed
  from this [OF sub] show ?thesis by (simp add: joined_rows_def)
qed

lemma calm_fault: "at_fault (calm k) = None" by (simp add: calm_def)

lemma query_calm:
  assumes "fn (calm 0) st = (Inr v, st')" and "0 < maxRetries (b_retry (breaker_for name fn' opts cbs))"
    and "b_queryFn (breaker_for name fn' opts cbs) = fn"
  shows "query name fn' opts False oa calm cbs st
           = ((Inr v, st'), cbs(name \<mapsto> breaker_for name fn' opts cbs), [Inr v])"
  using assms by (simp add: query_def Let_def retryWithBackoff_def retry_from_ok)

lemma vs_s1: "vote_summary ''s1'' ''x'' example_db
   = \<lparr>totalVotes = 0, pullVotes = 0, dontPullVotes = 0, avgLatencyMs = 0, rationales_pull = [], rationales_dont_pull = []\<rparr>"
  by (simp add: vote_summary_def joined_rows_def vote_rows_def example_db_def bobs_vote_def group_by_vote_enh_def)

text \<open>
  Claim C6. The tally of \<open>getVoteSummary\<close> has \<open>total = pull + dont_pull\<close>, and the
  total is the number of vote rows of the (session, scenario) pair. The first
  service's function has both (\<open>getVoteSummary_tally\<close>), and so has the aggregation of
  the enhanced service on a database where a vote has at most one rationale
  (\<open>vote_summary_tally\<close>, \<open>joined_rows_length\<close>). The enhanced \<^verbatim>\<open>getVoteSummary\<close> as a
  whole has not: it goes through \<^verbatim>\<open>resilientDatabase.query\<close>, which runs the query
  function of the first call ever made under the name \<^verbatim>\<open>vote-summary\<close>. Below, after
  a call for \<open>(s1, x)\<close>, the call for \<open>(s2, x)\<close> returns a total of 0 while the pair has
  one vote row (and the first service reports 1).
\<close>

theorem stale_vote_summary:
  "fst (fst (getVoteSummaryEnhanced ''s2'' ''x'' False False calm
               (snd (getVoteSummaryEnhanced ''s1'' ''x'' False False calm Map.empty example_db))
               example_db))
     = Inr (QSummary \<lparr>totalVotes = 0, pullVotes = 0, dontPullVotes = 0, avgLatencyMs = 0,
                      rationales_pull = [], rationales_dont_pull = []\<rparr>)
   \<and> length (vote_rows example_db ''s2'' ''x'') = 1
   \<and> totalVotes (getVoteSummary ''s2'' ''x'' example_db) = 1"
proof -
  let ?b = "\<lparr>b_queryFn = vote_summary_fn ''s1'' ''x'', b_retry = db_retry_config no_options\<rparr>"
  have first: "getVoteSummaryEnhanced ''s1'' ''x'' False False calm Map.empty example_db
     = ((Inr (QSummary (vote_summary ''s1'' ''x'' example_db)), example_db), [''vote-summary'' \<mapsto> ?b])"
    unfolding getVoteSummaryEnhanced_def
    by (subst query_calm [where v = "QSummary (vote_summary ''s1'' ''x'' example_db)" and st' = example_db
            and fn = "vote_summary_fn ''s1'' ''x''"])
       (simp_all add: vote_summary_fn_def calm_fault breaker_for_def db_retry_config_def no_options_def)
  have second: "getVoteSummaryEnhanced ''s2'' ''x'' False False calm [''vote-summary'' \<mapsto> ?b] example_db
     = ((Inr (QSummary (vote_summary ''s1'' ''x'' example_db)), example_db), [''vote-summary'' \<mapsto> ?b])"
    unfolding getVoteSummaryEnhanced_def
    by (subst query_calm [where v = "QSummary (vote_summary ''s1'' ''x'' example_db)" and st' = example_db
            and fn = "vote_summary_fn ''s1'' ''x''"])
       (simp_all add: vote_summary_fn_def calm_fault breaker_for_def db_retry_config_def no_options_def)
  have rows: "length (vote_rows example_db ''s2'' ''x'') = 1"
    by (simp add: vote_rows_def example_db_def bobs_vote_def)
  have legacy: "totalVotes (getVoteSummary ''s2'' ''x'' example_db) = 1"
    using getVoteSummary_tally [of "''s2''" "''x''" example_db] rows by simp
  show ?thesis
    by (simp add: first second vs_s1 rows legacy)
qed

section \<open>Properties of joining a room\<close>

lemma reactivate_pairs: "pairs (reactivate pid now d) = pairs d"
  by (simp add: pairs_def reactivate_def o_def)

lemma reactivate_length: "length (participants (reactivate pid now d)) = length (participants d)"
  by (simp add: reactivate_def)

lemma reactivate_found:
  assumes "e \<in> set (participants d)"
  shows "\<exists>u us. [p \<leftarrow> participants (reactivate (p_id e) now d). p_id p = p_id e] = u # us
              \<and> isActive u \<and> p_id u = p_id e"
proof -
  let ?f = "\<lambda>p. if p_id p = p_id e then p\<lparr>isActive := True, joinedAt := now\<rparr> else p"
  let ?l = "[p \<leftarrow> participants (reactivate (p_id e) now d). p_id p = p_id e]"
  have "?f e \<in> set (participants (reactivate (p_id e) now d))"
    using assms by (simp add: reactivate_def)
  then have "?f e \<in> set ?l" by simp
  then obtain u us where l: "?l = u # us" by (cases ?l) auto
  then have "u \<in> set ?l" by simp
  then have "u \<in> set (participants (reactivate (p_id e) now d))" and id: "p_id u = p_id e" by auto
  then obtain p where "p \<in> set (participants d)" and "u = ?f p" by (auto simp: reactivate_def)
  with id have "isActive u" by (auto split: if_splits)
  with l id show ?thesis by blast
qed

lemma joinRoom_rejoin:
  assumes js: "joinable_sessions d rc = session # rest"
    and kn: "known_participants d (s_id session) fp = existing # others"
  shows "length (participants (snd (joinRoom rc fp ua now new_id d))) = length (participants d)
       \<and> pairs (snd (joinRoom rc fp ua now new_id d)) = pairs d
       \<and> (fst (joinRoom rc fp ua now new_id d) = Inl (Error ''Room is full'')
            \<and> snd (joinRoom rc fp ua now new_id d) = d
            \<and> maxParticipants (s_config session) \<le> active_count d (s_id session)
          \<or> (\<exists>p. fst (joinRoom rc fp ua now new_id d) = Inr (p, session)
                 \<and> p_id p = p_id existing \<and> isActive p
                 \<and> snd (joinRoom rc fp ua now new_id d) = reactivate (p_id existing) now d))"
proof (cases "maxParticipants (s_config session) \<le> active_count d (s_id session)")
  case True
  with js show ?thesis by (simp add: joinRoom_def)
next
  case False
  from kn have "existing \<in> set (known_participants d (s_id session) fp)" by simp
  then have "existing \<in> set (participants d)" by (simp add: known_participants_def)
  from reactivate_found [OF this, of now]
  obtain u us where u: "[p \<leftarrow> participants (reactivate (p_id existing) now d). p_id p = p_id existing] = u # us"
    and a: "isActive u" and i: "p_id u = p_id existing" by blast
  from js kn False u have j: "joinRoom rc fp ua now new_id d = (Inr (u, session), reactivate (p_id existing) now d)"
    by (simp add: joinRoom_def Let_def)
  show ?thesis
    using a i by (simp add: j reactivate_length reactivate_pairs)
qed

lemma sanitized_examples:
  "sanitizeRoomCode ''ROOM02'' = ''ROOM02''"
  "sanitizeFingerprint ''alice'' = ''alice''"
  "sanitizeFingerprint ''bob'' = ''bob''"
  by code_simp+

lemma refused_transient: "db_shouldRetry (Error ''connect ECONNREFUSED 127.0.0.1:5432'')"
  by code_simp

lemma retry_from_stormy:
  assumes f: "\<And>k. fn (stormy k) st = (Inl (Error ''connect ECONNREFUSED 127.0.0.1:5432''), st)"
    and m: "maxRetries cfg = 3" and r: "shouldRetry cfg = db_shouldRetry"
  shows "retry_from cfg fn stormy 0 None st
           = ((Inl (Error ''connect ECONNREFUSED 127.0.0.1:5432''), st),
              [Inl (Error ''connect ECONNREFUSED 127.0.0.1:5432''),
               Inl (Error ''connect ECONNREFUSED 127.0.0.1:5432''),
               Inl (Error ''connect ECONNREFUSED 127.0.0.1:5432'')])"
proof -
  let ?e = "Error ''connect ECONNREFUSED 127.0.0.1:5432''"
  have sr: "shouldRetry cfg ?e" by (simp add: r refused_transient)
  have 3: "retry_from cfg fn stormy (Suc (Suc (Suc 0))) (Some ?e) st = ((Inl ?e, st), [])"
    by (simp add: retry_from_done m)
  have 2: "retry_from cfg fn stormy (Suc (Suc 0)) (Some ?e) st = ((Inl ?e, st), [Inl ?e])"
    using retry_from_again [of "Suc (Suc 0)" cfg fn stormy st ?e st "Some ?e"] f [of "Suc (Suc 0)"] sr m 3 by simp
  have 1: "retry_from cfg fn stormy (Suc 0) (Some ?e) st = ((Inl ?e, st), [Inl ?e, Inl ?e])"
    using retry_from_again [of "Suc 0" cfg fn stormy st ?e st "Some ?e"] f [of "Suc 0"] sr m 2 by simp
  show ?thesis
    using retry_from_again [of 0 cfg fn stormy st ?e st None] f [of 0] sr m 1 by simp
qed

text \<open>
  Claim C7. Joining a room with a fingerprint the session already knows reactivates
  the existing participant row and creates none. The first service's \<^verbatim>\<open>joinRoom\<close> does
  so on every database (\<open>joinRoom_rejoin\<close>), and the transaction of the enhanced service
  is the same code. The enhanced \<^verbatim>\<open>joinRoom\<close> as a whole does not: it goes through
  \<^verbatim>\<open>resilientDatabase.query\<close>, which runs the query function of the first call ever
  made under the name \<^verbatim>\<open>join-room\<close>. Below, a join of \<open>alice\<close> fails on three refused
  connections; then \<open>bob\<close>, whom the room knows, joins again: the call runs the join of
  \<open>alice\<close>, a second participant row appears, the row of \<open>bob\<close> is not touched, and the
  caller gets the row of \<open>alice\<close>. The first service on the same database reactivates
  the row of \<open>bob\<close> and adds none.
\<close>

theorem stale_join_room:
  "known_participants example_db ''s2'' ''bob'' = [bob]
   \<and> participants example_db = [bob]
   \<and> fst (joinRoomEnhanced ''ROOM02'' ''bob'' None False False calm
            (snd (joinRoomEnhanced ''ROOM02'' ''alice'' None False False stormy Map.empty example_db))
            example_db)
       = (Inr (QJoin alice room2), example_db\<lparr>participants := [bob, alice]\<rparr>)
   \<and> snd (joinRoom ''ROOM02'' ''bob'' None 100 ''new-'' example_db)
       = example_db\<lparr>participants := [bob\<lparr>joinedAt := 100\<rparr>]\<rparr>"
proof -
  let ?b = "\<lparr>b_queryFn = join_room_fn ''ROOM02'' ''alice'' None, b_retry = db_retry_config no_options\<rparr>"
  let ?e = "Error ''connect ECONNREFUSED 127.0.0.1:5432''"
  have cfg: "maxRetries (db_retry_config no_options) = 3" "shouldRetry (db_retry_config no_options) = db_shouldRetry"
    by (simp_all add: db_retry_config_def no_options_def)
  have st: "join_room_fn ''ROOM02'' ''alice'' None (stormy k) example_db = (Inl ?e, example_db)" for k
    by (simp add: join_room_fn_def stormy_def)
  have first: "snd (joinRoomEnhanced ''ROOM02'' ''alice'' None False False stormy Map.empty example_db)
                 = [''join-room'' \<mapsto> ?b]"
    by (simp add: joinRoomEnhanced_def sanitized_examples query_def breaker_for_def retryWithBackoff_def
                  retry_from_stormy [of "join_room_fn ''ROOM02'' ''alice'' None" example_db "db_retry_config no_options", OF st cfg])
  have js: "joinable_sessions example_db ''ROOM02'' = [room2]"
    by (simp add: joinable_sessions_def example_db_def room1_def room2_def)
  have ac: "active_count example_db ''s2'' = 1"
    by (simp add: active_count_def example_db_def bob_def)
  have mx: "maxParticipants (s_config room2) = 200"
    by (simp add: room2_def room1_def defaultConfig_def no_config_def)
  have kb: "known_participants example_db ''s2'' ''bob'' = [bob]"
    by (simp add: known_participants_def example_db_def bob_def)
  have ka: "known_participants example_db ''s2'' ''alice'' = []"
    by (simp add: known_participants_def example_db_def bob_def)
  have ins: "insert_participant alice example_db = Inr (example_db\<lparr>participants := [bob, alice]\<rparr>)"
    by (simp add: insert_participant_def example_db_def alice_def bob_def room1_def room2_def)
  have id2: "s_id room2 = ''s2''" by (simp add: room2_def)
  have run: "join_room_fn ''ROOM02'' ''alice'' None (calm 0) example_db
               = (Inr (QJoin alice room2), example_db\<lparr>participants := [bob, alice]\<rparr>)"
    using ins by (simp add: join_room_fn_def calm_def joinRoom_def js ac mx ka id2 alice_def Let_def)
  have second: "fst (joinRoomEnhanced ''ROOM02'' ''bob'' None False False calm [''join-room'' \<mapsto> ?b] example_db)
                 = (Inr (QJoin alice room2), example_db\<lparr>participants := [bob, alice]\<rparr>)"
    by (simp add: joinRoomEnhanced_def sanitized_examples query_def breaker_for_def retryWithBackoff_def
                  retry_from_ok [of 0 "db_retry_config no_options" "join_room_fn ''ROOM02'' ''alice'' None" calm example_db, OF _ run]
                  cfg)
  have legacy: "snd (joinRoom ''ROOM02'' ''bob'' None 100 ''new-'' example_db)
       = example_db\<lparr>participants := [bob\<lparr>joinedAt := 100\<rparr>]\<rparr>"
    by (simp add: joinRoom_def js ac mx kb id2 Let_def) (simp add: reactivate_def example_db_def bob_def)
  show ?thesis
    by (simp add: first second legacy kb) (simp add: example_db_def)
qed

section \<open>Properties of ending a session\<close>

lemma row_twice1:
  "end_session_row sid t' \<circ> end_session_row sid t = end_session_row sid t'"
  by (rule ext) (simp add: end_session_row_def)

lemma row_twice2:
  "deactivate_row sid t' \<circ> deactivate_row sid t = deactivate_row sid t'"
  by (rule ext) (simp add: deactivate_row_def)

lemma row_twice3:
  "complete_scenario_row sid t' \<circ> complete_scenario_row sid t = complete_scenario_row sid t'"
  by (rule ext) (simp add: complete_scenario_row_def)

lemma row_eq1:
  "end_session_row sid t = (\<lambda>s. if s_id s = sid then s\<lparr>s_status := Complete, s_endedAt := Some t\<rparr> else s)"
  by (rule ext) (simp add: end_session_row_def)

lemma row_eq2:
  "deactivate_row sid t = (\<lambda>p. if p_sessionId p = sid then p\<lparr>isActive := False, leftAt := Some t\<rparr> else p)"
  by (rule ext) (simp add: deactivate_row_def)

lemma row_eq3:
  "complete_scenario_row sid t
     = (\<lambda>x. if ss_sessionId x = sid then x\<lparr>ss_status := ''complete'', ss_endedAt := Some t\<rparr> else x)"
  by (rule ext) (simp add: complete_scenario_row_def)

text \<open>On a row the first call has written, the second call writes the timestamp only.\<close>

lemma row_again1:
  "map (end_session_row sid t') (map (end_session_row sid t) xs)
     = map (\<lambda>s. if s_id s = sid then s\<lparr>s_endedAt := Some t'\<rparr> else s) (map (end_session_row sid t) xs)"
  by (induction xs) (simp_all add: end_session_row_def)

lemma row_again2:
  "map (deactivate_row sid t') (map (deactivate_row sid t) xs)
     = map (\<lambda>p. if p_sessionId p = sid then p\<lparr>leftAt := Some t'\<rparr> else p) (map (deactivate_row sid t) xs)"
  by (induction xs) (simp_all add: deactivate_row_def)

lemma row_again3:
  "map (complete_scenario_row sid t') (map (complete_scenario_row sid t) xs)
     = map (\<lambda>x. if ss_sessionId x = sid then x\<lparr>ss_endedAt := Some t'\<rparr> else x)
           (map (complete_scenario_row sid t) xs)"
  by (induction xs) (simp_all add: complete_scenario_row_def)

lemma endSessionEnhanced_db:
  "snd (endSessionEnhanced sid None t1 t2 t3 d)
     = d\<lparr>sessions := map (end_session_row sid t1) (sessions d),
         participants := map (deactivate_row sid t2) (participants d),
         sessionScenarios := map (complete_scenario_row sid t3) (sessionScenarios d)\<rparr>"
  by (simp add: endSessionEnhanced_def end_session_rows_def Let_def)

lemma endSessionEnhanced_twice:
  "snd (endSessionEnhanced sid None t4 t5 t6 (snd (endSessionEnhanced sid None t1 t2 t3 d)))
     = snd (endSessionEnhanced sid None t4 t5 t6 d)"
  by (simp add: endSessionEnhanced_db row_twice1 row_twice2 row_twice3)

lemma endSessionEnhanced_tables:
  "sessions (snd (endSessionEnhanced sid None t1 t2 t3 d)) = map (end_session_row sid t1) (sessions d)"
  "participants (snd (endSessionEnhanced sid None t1 t2 t3 d)) = map (deactivate_row sid t2) (participants d)"
  "sessionScenarios (snd (endSessionEnhanced sid None t1 t2 t3 d))
     = map (complete_scenario_row sid t3) (sessionScenarios d)"
  by (simp_all add: endSessionEnhanced_def end_session_rows_def Let_def)

lemma endSessionEnhanced_first:
  "snd (endSessionEnhanced sid None t1 t2 t3 d)
     = d\<lparr>sessions := map (\<lambda>s. if s_id s = sid then s\<lparr>s_status := Complete, s_endedAt := Some t1\<rparr> else s)
                          (sessions d),
         participants := map (\<lambda>p. if p_sessionId p = sid then p\<lparr>isActive := False, leftAt := Some t2\<rparr> else p)
                             (participants d),
         sessionScenarios :=
           map (\<lambda>x. if ss_sessionId x = sid then x\<lparr>ss_status := ''complete'', ss_endedAt := Some t3\<rparr> else x)
               (sessionScenarios d)\<rparr>"
  by (simp only: endSessionEnhanced_db row_eq1 [symmetric] row_eq2 [symmetric] row_eq3 [symmetric])

lemma endSessionEnhanced_second:
  "snd (endSessionEnhanced sid None t4 t5 t6 (snd (endSessionEnhanced sid None t1 t2 t3 d)))
     = (snd (endSessionEnhanced sid None t1 t2 t3 d))
         \<lparr>sessions := map (\<lambda>s. if s_id s = sid then s\<lparr>s_endedAt := Some t4\<rparr> else s)
                          (sessions (snd (endSessionEnhanced sid None t1 t2 t3 d))),
          participants := map (\<lambda>p. if p_sessionId p = sid then p\<lparr>leftAt := Some t5\<rparr> else p)
                              (participants (snd (endSessionEnhanced sid None t1 t2 t3 d))),
          sessionScenarios := map (\<lambda>x. if ss_sessionId x = sid then x\<lparr>ss_endedAt := Some t6\<rparr> else x)
                                  (sessionScenarios (snd (endSessionEnhanced sid None t1 t2 t3 d)))\<rparr>"
proof -
  let ?d1 = "snd (endSessionEnhanced sid None t1 t2 t3 d)"
  have "snd (endSessionEnhanced sid None t4 t5 t6 ?d1)
          = ?d1\<lparr>sessions := map (end_session_row sid t4) (sessions ?d1),
                 participants := map (deactivate_row sid t5) (participants ?d1),
                 sessionScenarios := map (complete_scenario_row sid t6) (sessionScenarios ?d1)\<rparr>"
    by (rule endSessionEnhanced_db)
  then show ?thesis
    by (simp only: endSessionEnhanced_tables row_again1 row_again2 row_again3)
qed

lemma endSessionEnhanced_failed: "endSessionEnhanced sid (Some e) t1 t2 t3 d = (Inl e, d)"
  by (simp add: endSessionEnhanced_def)

lemma end_session_row_simps:
  "s_id (end_session_row sid t s) = s_id s"
  "s_id s = sid \<Longrightarrow> s_status (end_session_row sid t s) = Complete"
  by (simp_all add: end_session_row_def)

lemma deactivate_row_simps:
  "p_sessionId (deactivate_row sid t p) = p_sessionId p"
  "p_sessionId p = sid \<Longrightarrow> \<not> isActive (deactivate_row sid t p)"
  by (simp_all add: deactivate_row_def)

lemma complete_scenario_row_simps:
  "ss_sessionId (complete_scenario_row sid t x) = ss_sessionId x"
  "ss_sessionId x = sid \<Longrightarrow> ss_status (complete_scenario_row sid t x) = ''complete''"
  by (simp_all add: complete_scenario_row_def)

lemma ended_rows:
  assumes "s \<in> set (map (end_session_row sid t) xs)" and "s_id s = sid"
  shows "s_status s = Complete"
proof -
  from assms(1) obtain y where y: "s = end_session_row sid t y" by auto
  with assms(2) have "s_id y = sid" by (simp add: end_session_row_simps)
  with y show ?thesis by (simp add: end_session_row_simps)
qed

lemma deactivated_rows:
  assumes "p \<in> set (map (deactivate_row sid t) xs)" and "p_sessionId p = sid"
  shows "\<not> isActive p"
proof -
  from assms(1) obtain y where y: "p = deactivate_row sid t y" by auto
  with assms(2) have "p_sessionId y = sid" by (simp add: deactivate_row_simps)
  with y show ?thesis by (simp add: deactivate_row_simps)
qed

lemma completed_rows:
  assumes "x \<in> set (map (complete_scenario_row sid t) xs)" and "ss_sessionId x = sid"
  shows "ss_status x = ''complete''"
proof -
  from assms(1) obtain y where y: "x = complete_scenario_row sid t y" by auto
  with assms(2) have "ss_sessionId y = sid" by (simp add: complete_scenario_row_simps)
  with y show ?thesis by (simp add: complete_scenario_row_simps)
qed

lemma ended_db_eq: "snd (endSessionEnhanced ''s2'' None 31 32 33 running_db) = ended_db"
  by (simp add: endSessionEnhanced_db running_db_def ended_db_def example_db_def room1_def room2_def
                bob_def round1_def end_session_row_def deactivate_row_def complete_scenario_row_def)

lemma again_db_eq: "snd (endSessionEnhanced ''s2'' None 44 45 46 running_db) = again_db"
  by (simp add: endSessionEnhanced_db running_db_def again_db_def example_db_def room1_def room2_def
                bob_def round1_def end_session_row_def deactivate_row_def complete_scenario_row_def)

lemma again_db_stamps:
  "ended_db
     \<lparr>sessions := map (\<lambda>s. if s_id s = ''s2'' then s\<lparr>s_endedAt := Some 44\<rparr> else s) (sessions ended_db),
      participants := map (\<lambda>p. if p_sessionId p = ''s2'' then p\<lparr>leftAt := Some 45\<rparr> else p)
                          (participants ended_db),
      sessionScenarios := map (\<lambda>x. if ss_sessionId x = ''s2'' then x\<lparr>ss_endedAt := Some 46\<rparr> else x)
                              (sessionScenarios ended_db)\<rparr>
     = again_db"
  by (simp add: ended_db_def again_db_def example_db_def room1_def room2_def bob_def round1_def)

text \<open>
  Claim C5, as amended. When its transaction commits, the enhanced \<^verbatim>\<open>endSession\<close> sets
  the status of the session to \<^verbatim>\<open>complete\<close>, marks every participant of the session
  inactive and marks every scenario-in-session record of the session \<^verbatim>\<open>complete\<close>,
  stamping each of these rows with the time of its update; no other row and no other
  column changes. A second call leaves every status and active flag as the first call
  left them: of the database the first call produced it overwrites \<^verbatim>\<open>endedAt\<close> and
  \<^verbatim>\<open>leftAt\<close> of the session's rows and nothing else. It therefore gives the database that
  one call at the later clock readings gives, and at the same clock readings it changes
  nothing. When the transaction fails, \<^verbatim>\<open>endSession\<close> returns the error and the database
  is as it was.

  As stated (the second call changes nothing) the claim fails: each call writes
  \<^verbatim>\<open>endedAt\<close> and \<^verbatim>\<open>leftAt\<close> anew, in both services (the counterexample follows the
  witness).
\<close>

theorem endSessionEnhanced_effect:
  "(\<forall>s \<in> set (sessions (snd (endSessionEnhanced sessionId None t1 t2 t3 d))).
       s_id s = sessionId \<longrightarrow> s_status s = Complete)
   \<and> (\<forall>p \<in> set (participants (snd (endSessionEnhanced sessionId None t1 t2 t3 d))).
       p_sessionId p = sessionId \<longrightarrow> \<not> isActive p)
   \<and> (\<forall>x \<in> set (sessionScenarios (snd (endSessionEnhanced sessionId None t1 t2 t3 d))).
       ss_sessionId x = sessionId \<longrightarrow> ss_status x = ''complete'')
   \<and> snd (endSessionEnhanced sessionId None t4 t5 t6 (snd (endSessionEnhanced sessionId None t1 t2 t3 d)))
       = snd (endSessionEnhanced sessionId None t4 t5 t6 d)
   \<and> snd (endSessionEnhanced sessionId None t1 t2 t3 (snd (endSessionEnhanced sessionId None t1 t2 t3 d)))
       = snd (endSessionEnhanced sessionId None t1 t2 t3 d)
   \<and> snd (endSessionEnhanced sessionId None t1 t2 t3 d)
       = d\<lparr>sessions :=
             map (\<lambda>s. if s_id s = sessionId then s\<lparr>s_status := Complete, s_endedAt := Some t1\<rparr> else s)
                 (sessions d),
           participants :=
             map (\<lambda>p. if p_sessionId p = sessionId then p\<lparr>isActive := False, leftAt := Some t2\<rparr> else p)
                 (participants d),
           sessionScenarios :=
             map (\<lambda>x. if ss_sessionId x = sessionId
                       then x\<lparr>ss_status := ''complete'', ss_endedAt := Some t3\<rparr> else x)
                 (sessionScenarios d)\<rparr>
   \<and> snd (endSessionEnhanced sessionId None t4 t5 t6 (snd (endSessionEnhanced sessionId None t1 t2 t3 d)))
       = (snd (endSessionEnhanced sessionId None t1 t2 t3 d))
           \<lparr>sessions :=
              map (\<lambda>s. if s_id s = sessionId then s\<lparr>s_endedAt := Some t4\<rparr> else s)
                  (sessions (snd (endSessionEnhanced sessionId None t1 t2 t3 d))),
            participants :=
              map (\<lambda>p. if p_sessionId p = sessionId then p\<lparr>leftAt := Some t5\<rparr> else p)
                  (participants (snd (endSessionEnhanced sessionId None t1 t2 t3 d))),
            sessionScenarios :=
              map (\<lambda>x. if ss_sessionId x = sessionId then x\<lparr>ss_endedAt := Some t6\<rparr> else x)
                  (sessionScenarios (snd (endSessionEnhanced sessionId None t1 t2 t3 d)))\<rparr>
   \<and> endSessionEnhanced sessionId (Some e) t1 t2 t3 d = (Inl e, d)"
proof -
  have a: "\<forall>s \<in> set (sessions (snd (endSessionEnhanced sessionId None t1 t2 t3 d))).
       s_id s = sessionId \<longrightarrow> s_status s = Complete"
    using ended_rows by (simp only: endSessionEnhanced_tables) blast
  have b: "\<forall>p \<in> set (participants (snd (endSessionEnhanced sessionId None t1 t2 t3 d))).
       p_sessionId p = sessionId \<longrightarrow> \<not> isActive p"
    using deactivated_rows by (simp only: endSessionEnhanced_tables) blast
  have c: "\<forall>x \<in> set (sessionScenarios (snd (endSessionEnhanced sessionId None t1 t2 t3 d))).
       ss_sessionId x = sessionId \<longrightarrow> ss_status x = ''complete''"
    using completed_rows by (simp only: endSessionEnhanced_tables) blast
  show ?thesis
    by (intro conjI)
       (rule a b c endSessionEnhanced_twice endSessionEnhanced_first endSessionEnhanced_second
             endSessionEnhanced_failed)+
qed

theorem endSessionEnhanced_effect_witness:
  "snd (endSessionEnhanced ''s2'' None 31 32 33 running_db) = ended_db
   \<and> s_status (room2\<lparr>s_status := Complete, s_endedAt := Some 31\<rparr>) = Complete
   \<and> \<not> isActive (bob\<lparr>isActive := False, leftAt := Some 32\<rparr>)
   \<and> ss_status (round1\<lparr>ss_status := ''complete'', ss_endedAt := Some 33\<rparr>) = ''complete''
   \<and> snd (endSessionEnhanced ''s2'' None 44 45 46 ended_db) = again_db
   \<and> snd (endSessionEnhanced ''s2'' None 31 32 33 ended_db) = ended_db
   \<and> endSessionEnhanced ''s2'' (Some no_transactions) 31 32 33 running_db = (Inl no_transactions, running_db)"
proof -
  note t = endSessionEnhanced_effect [of "''s2''" 31 32 33 running_db 44 45 46 no_transactions,
             unfolded ended_db_eq]
  have s: "room2\<lparr>s_status := Complete, s_endedAt := Some 31\<rparr> \<in> set (sessions ended_db)"
    and si: "s_id (room2\<lparr>s_status := Complete, s_endedAt := Some 31\<rparr>) = ''s2''"
    by (simp_all add: ended_db_def room2_def)
  have p: "bob\<lparr>isActive := False, leftAt := Some 32\<rparr> \<in> set (participants ended_db)"
    and pi: "p_sessionId (bob\<lparr>isActive := False, leftAt := Some 32\<rparr>) = ''s2''"
    by (simp_all add: ended_db_def bob_def)
  have x: "round1\<lparr>ss_status := ''complete'', ss_endedAt := Some 33\<rparr> \<in> set (sessionScenarios ended_db)"
    and xi: "ss_sessionId (round1\<lparr>ss_status := ''complete'', ss_endedAt := Some 33\<rparr>) = ''s2''"
    by (simp_all add: ended_db_def round1_def)
  from t have tA: "\<forall>s \<in> set (sessions ended_db). s_id s = ''s2'' \<longrightarrow> s_status s = Complete"
    by (rule conjunct1)
  from t have tB: "\<forall>p \<in> set (participants ended_db). p_sessionId p = ''s2'' \<longrightarrow> \<not> isActive p"
    by (rule conjunct2 [THEN conjunct1])
  from t have tC: "\<forall>x \<in> set (sessionScenarios ended_db). ss_sessionId x = ''s2'' \<longrightarrow> ss_status x = ''complete''"
    by (rule conjunct2 [THEN conjunct2, THEN conjunct1])
  from t have 5: "snd (endSessionEnhanced ''s2'' None 31 32 33 ended_db) = ended_db"
    by (rule conjunct2 [THEN conjunct2, THEN conjunct2, THEN conjunct2, THEN conjunct1])
  from t have "snd (endSessionEnhanced ''s2'' None 44 45 46 ended_db)
       = ended_db
           \<lparr>sessions := map (\<lambda>s. if s_id s = ''s2'' then s\<lparr>s_endedAt := Some 44\<rparr> else s) (sessions ended_db),
            participants := map (\<lambda>p. if p_sessionId p = ''s2'' then p\<lparr>leftAt := Some 45\<rparr> else p)
                                (participants ended_db),
            sessionScenarios := map (\<lambda>x. if ss_sessionId x = ''s2'' then x\<lparr>ss_endedAt := Some 46\<rparr> else x)
                                    (sessionScenarios ended_db)\<rparr>"
    by (rule conjunct2 [THEN conjunct2, THEN conjunct2, THEN conjunct2, THEN conjunct2, THEN conjunct2,
                        THEN conjunct1])
  then have 4: "snd (endSessionEnhanced ''s2'' None 44 45 46 ended_db) = again_db"
    by (simp only: again_db_stamps)
  from t have 6: "endSessionEnhanced ''s2'' (Some no_transactions) 31 32 33 running_db
                    = (Inl no_transactions, running_db)"
    by (rule conjunct2 [THEN conjunct2, THEN conjunct2, THEN conjunct2, THEN conjunct2, THEN conjunct2,
                        THEN conjunct2])
  from bspec [OF tA s] si have 1: "s_status (room2\<lparr>s_status := Complete, s_endedAt := Some 31\<rparr>) = Complete"
    by (rule mp)
  from bspec [OF tB p] pi have 2: "\<not> isActive (bob\<lparr>isActive := False, leftAt := Some 32\<rparr>)"
    by (rule mp)
  from bspec [OF tC x] xi have 3: "ss_status (round1\<lparr>ss_status := ''complete'', ss_endedAt := Some 33\<rparr>) = ''complete''"
    by (rule mp)
  show ?thesis
    by (intro conjI) (rule ended_db_eq 1 2 3 4 5 6)+
qed

text \<open>
  The counterexample to claim C5 as stated: the session ended at 31 is ended again at 44,
  and its \<^verbatim>\<open>endedAt\<close> moves from 31 to 44, in the enhanced and in the first service.
\<close>

theorem endSession_twice_counterexample:
  "snd (endSessionEnhanced ''s2'' None 44 45 46 (snd (endSessionEnhanced ''s2'' None 31 32 33 running_db)))
     \<noteq> snd (endSessionEnhanced ''s2'' None 31 32 33 running_db)
   \<and> fst (endSessionEnhanced ''s2'' None 31 32 33 running_db)
       = Inr (Some (room2\<lparr>s_status := Complete, s_endedAt := Some 31\<rparr>))
   \<and> fst (endSessionEnhanced ''s2'' None 44 45 46 (snd (endSessionEnhanced ''s2'' None 31 32 33 running_db)))
       = Inr (Some (room2\<lparr>s_status := Complete, s_endedAt := Some 44\<rparr>))
   \<and> snd (endSession ''s2'' None 44 (snd (endSession ''s2'' None 31 running_db)))
       \<noteq> snd (endSession ''s2'' None 31 running_db)"
proof -
  have a: "sessions (snd (endSessionEnhanced ''s2'' None 44 45 46 ended_db))
             = [room1, room2\<lparr>s_status := Complete, s_endedAt := Some 44\<rparr>]"
    by (simp add: endSessionEnhanced_db ended_db_def example_db_def room1_def room2_def end_session_row_def)
  have b: "sessions ended_db = [room1, room2\<lparr>s_status := Complete, s_endedAt := Some 31\<rparr>]"
    by (simp add: ended_db_def)
  have ne: "room2\<lparr>s_status := Complete, s_endedAt := Some 44\<rparr> \<noteq> room2\<lparr>s_status := Complete, s_endedAt := Some (31::nat)\<rparr>"
    by (simp add: room2_def room1_def)
  have 1: "snd (endSessionEnhanced ''s2'' None 44 45 46 ended_db) \<noteq> ended_db"
  proof
    assume "snd (endSessionEnhanced ''s2'' None 44 45 46 ended_db) = ended_db"
    then have "sessions (snd (endSessionEnhanced ''s2'' None 44 45 46 ended_db)) = sessions ended_db"
      by (rule arg_cong)
    with a b ne show False by simp
  qed
  have 2: "fst (endSessionEnhanced ''s2'' None 31 32 33 running_db)
             = Inr (Some (room2\<lparr>s_status := Complete, s_endedAt := Some 31\<rparr>))"
    by (simp add: endSessionEnhanced_def end_session_rows_def end_session_row_def first_row_def running_db_def example_db_def
                  room1_def room2_def Let_def)
  have 3: "fst (endSessionEnhanced ''s2'' None 44 45 46 ended_db)
             = Inr (Some (room2\<lparr>s_status := Complete, s_endedAt := Some 44\<rparr>))"
    by (simp add: endSessionEnhanced_def end_session_rows_def end_session_row_def first_row_def ended_db_def example_db_def
                  room1_def room2_def Let_def)
  have l1: "sessions (snd (endSession ''s2'' None 31 running_db)) = [room1, room2\<lparr>s_status := Complete, s_endedAt := Some 31\<rparr>]"
    by (simp add: endSession_def end_session_rows_def end_session_row_def running_db_def example_db_def room1_def room2_def Let_def)
  have l2: "sessions (snd (endSession ''s2'' None 44 (snd (endSession ''s2'' None 31 running_db))))
              = [room1, room2\<lparr>s_status := Complete, s_endedAt := Some 44\<rparr>]"
    by (simp add: endSession_def end_session_rows_def end_session_row_def running_db_def example_db_def room1_def room2_def Let_def)
  have 4: "snd (endSession ''s2'' None 44 (snd (endSession ''s2'' None 31 running_db))) \<noteq> snd (endSession ''s2'' None 31 running_db)"
  proof
    assume "snd (endSession ''s2'' None 44 (snd (endSession ''s2'' None 31 running_db))) = snd (endSession ''s2'' None 31 running_db)"
    then have "sessions (snd (endSession ''s2'' None 44 (snd (endSession ''s2'' None 31 running_db))))
                 = sessions (snd (endSession ''s2'' None 31 running_db))"
      by (rule arg_cong)
    with l1 l2 ne show False by simp
  qed
  show ?thesis
    unfolding ended_db_eq by (intro conjI) (rule 1 2 3 4)+
qed

section \<open>Properties of the socket handlers\<close>

lemma secure_on_unauthorized:
  assumes "mutating_session msg = Some sessionId"
    and "Some sessionId \<noteq> sd_sessionId (socket_data rt sock)"
  shows "secure_on scrub now sock msg fault d rt = unauthorized sock rt
       \<and> unauthorized sock rt = rt\<lparr>emitted := emitted rt @ [Emit (Sock sock) (error_event ''Unauthorized action'')]\<rparr>"
  using assms
  by (cases msg) (simp_all add: mutating_session_def secure_on_def unauthorized_def do_emit_def)

lemma crowd_eq:
  "crowd = \<lparr>sessionTimers = [(''s2-x'', 0)],
            intervals = [0 \<mapsto> \<lparr>iv_sessionId = ''s2'', iv_scenarioId = ''x'', secondsRemaining = 30,
                                 iv_volatile = False\<rparr>],
            next_handle = 1,
            emitted = [Emit (Room ''s1'') (participant_joined ''p9'' (Some ''s1'') 0),
                       Emit (Room ''s2'') (timer_started ''s2'' ''x'' 30 1)],
            socket_data = (\<lambda>sock. no_data)
               (7 := \<lparr>sd_sessionId = Some ''s1'', sd_participantId = Some ''p9'', sd_roomCode = None\<rparr>),
            rooms = [(7, ''s1'')]\<rparr>"
  by (simp add: crowd_def first_on_def init_realtime_def socket_join_def getActiveParticipantCount_def
                active_count_def example_db_def bob_def do_emit_def startTimer_def timerKey_def
                setInterval_def no_data_def Let_def)

text \<open>
  Claim C4. A state-mutating message (\<^verbatim>\<open>start_timer\<close>, \<^verbatim>\<open>start_scenario\<close>,
  \<^verbatim>\<open>announce_decision\<close>, \<^verbatim>\<open>end_session\<close>) whose \<^verbatim>\<open>sessionId\<close> is not the session of the
  sending socket gets an unauthorized-action error and has no other effect. The secure
  service does so (\<open>secure_on_unauthorized\<close>: the state is unchanged but for the one
  error emitted to the sender). The first service, the one the server's routes are
  built on, checks nothing. Below, socket 7 of session \<open>s1\<close> sends \<^verbatim>\<open>end_session\<close> and
  \<^verbatim>\<open>start_timer\<close> for session \<open>s2\<close>: the first service clears the running timer of \<open>s2\<close>
  and broadcasts \<^verbatim>\<open>session_ended\<close> to its room, and starts a timer there; the secure
  handler answers the same message with the error alone.
\<close>

theorem cross_session_action:
  "sd_sessionId (socket_data crowd 7) = Some ''s1''
   \<and> map_of (sessionTimers crowd) (timerKey ''s2'' ''x'') = Some 0
   \<and> emitted (first_on 2 7 (end_session ''s2'' ''ROOM02'') None example_db crowd)
       = emitted crowd @ [Emit (Room ''s2'') (session_ended ''s2'' ''ROOM02'')]
   \<and> sessionTimers (first_on 2 7 (end_session ''s2'' ''ROOM02'') None example_db crowd) = []
   \<and> intervals (first_on 2 7 (end_session ''s2'' ''ROOM02'') None example_db crowd) 0 = None
   \<and> emitted (first_on 2 7 (start_timer ''s2'' ''x'' 10) None example_db crowd)
       = emitted crowd @ [Emit (Room ''s2'') (timer_started ''s2'' ''x'' 10 2)]
   \<and> secure_on scrub 2 7 (end_session ''s2'' ''ROOM02'') None example_db crowd = unauthorized 7 crowd
   \<and> emitted (unauthorized 7 crowd) = emitted crowd @ [Emit (Sock 7) (error_event ''Unauthorized action'')]"
proof -
  have sw: "startsWith ''s2-x'' ''s2''" by simp
  have e: "first_on 2 7 (end_session ''s2'' ''ROOM02'') None example_db crowd
             = crowd\<lparr>sessionTimers := [], intervals := Map.empty,
                     emitted := emitted crowd @ [Emit (Room ''s2'') (session_ended ''s2'' ''ROOM02'')]\<rparr>"
    by (simp add: first_on_def clearSessionTimers_def crowd_eq clearInterval_def do_emit_def)
  have t: "emitted (first_on 2 7 (start_timer ''s2'' ''x'' 10) None example_db crowd)
       = emitted crowd @ [Emit (Room ''s2'') (timer_started ''s2'' ''x'' 10 2)]"
    by (simp add: first_on_def startTimer_def crowd_eq timerKey_def clearInterval_def do_emit_def
                  setInterval_def Let_def)
  have s: "secure_on scrub 2 7 (end_session ''s2'' ''ROOM02'') None example_db crowd = unauthorized 7 crowd"
    by (simp add: secure_on_def crowd_eq)
  show ?thesis
    by (simp add: e t s) (simp add: crowd_eq timerKey_def unauthorized_def do_emit_def)
qed

theorem cross_session_action_witness:
  "secure_on (\<lambda>t. t) 2 7 (end_session ''s2'' ''ROOM02'') None example_db crowd = unauthorized 7 crowd
   \<and> emitted (first_on 2 7 (end_session ''s2'' ''ROOM02'') None example_db crowd)
       = emitted crowd @ [Emit (Room ''s2'') (session_ended ''s2'' ''ROOM02'')]"
  using cross_session_action [of "\<lambda>t. t"] by blast

section \<open>Properties of the participant count\<close>

lemma stormy_count_fn:
  "participant_count_fn sid (stormy k) d = (Inl (Error ''connect ECONNREFUSED 127.0.0.1:5432''), d)"
  by (simp add: participant_count_fn_def stormy_def)

lemma stormy_count:
  "getActiveParticipantCountEnhanced sid False False stormy Map.empty d
     = ((QCount 0, d), [''participant-count'' \<mapsto>
          \<lparr>b_queryFn = participant_count_fn sid, b_retry = db_retry_config no_options\<rparr>])"
proof -
  have "retry_from (db_retry_config no_options) (participant_count_fn sid) stormy 0 None d
          = ((Inl (Error ''connect ECONNREFUSED 127.0.0.1:5432''), d),
             [Inl (Error ''connect ECONNREFUSED 127.0.0.1:5432''),
              Inl (Error ''connect ECONNREFUSED 127.0.0.1:5432''),
              Inl (Error ''connect ECONNREFUSED 127.0.0.1:5432'')])"
    by (rule retry_from_stormy) (simp_all add: stormy_count_fn db_retry_config_def no_options_def)
  then show ?thesis
    by (simp add: getActiveParticipantCountEnhanced_def query_def breaker_for_def retryWithBackoff_def Let_def)
qed

lemma bob_is_active: "active_count example_db ''s2'' = 1"
  by (simp add: active_count_def example_db_def bob_def)

text \<open>
  Claim C10, as amended. When the query \<^verbatim>\<open>participant-count\<close> fails, the enhanced
  \<^verbatim>\<open>getActiveParticipantCount\<close> returns 0 and propagates no error. The handlers
  \<^verbatim>\<open>handleParticipantJoined\<close> and \<^verbatim>\<open>handleParticipantLeft\<close> do not call it: they call
  the first service's \<^verbatim>\<open>getActiveParticipantCount\<close>, which propagates the failure, and then
  they emit nothing; the broadcast they emit when the count succeeds carries the number of
  active participants of the session.

  As stated (a failed count makes a broadcast report \<open>active_count = 0\<close>) the claim
  fails: the counterexample follows the witness.
\<close>

theorem failed_count_is_not_broadcast:
  "(fst (fst (query ''participant-count'' (participant_count_fn sessionId) no_options
                open_before open_after world circuitBreakers d)) = Inl e
      \<longrightarrow> fst (fst (getActiveParticipantCountEnhanced sessionId open_before open_after world circuitBreakers d))
            = QCount 0)
   \<and> getActiveParticipantCount sessionId (Some e) d = Inl e
   \<and> handleParticipantJoined sessionId participantId rc (Some e) d rt = rt
   \<and> handleParticipantLeft sessionId participantId rc (Some e) d rt = rt
   \<and> handleParticipantJoined sessionId participantId rc None d rt
       = do_emit (Emit (Room sessionId) (participant_joined participantId rc (active_count d sessionId))) rt
   \<and> handleParticipantLeft sessionId participantId rc None d rt
       = do_emit (Emit (Room sessionId) (participant_left participantId rc (active_count d sessionId))) rt"
proof -
  have a: "fst (fst (query ''participant-count'' (participant_count_fn sessionId) no_options
                open_before open_after world circuitBreakers d)) = Inl e
      \<longrightarrow> fst (fst (getActiveParticipantCountEnhanced sessionId open_before open_after world circuitBreakers d))
            = QCount 0"
    by (cases "query ''participant-count'' (participant_count_fn sessionId) no_options
                open_before open_after world circuitBreakers d")
       (auto simp add: getActiveParticipantCountEnhanced_def split: prod.splits sum.splits)
  show ?thesis
    using a by (simp add: getActiveParticipantCount_def handleParticipantJoined_def handleParticipantLeft_def)
qed

theorem failed_count_is_not_broadcast_witness:
  "fst (fst (query ''participant-count'' (participant_count_fn ''s2'') no_options
               False False stormy Map.empty example_db)) = Inl (Error ''connect ECONNREFUSED 127.0.0.1:5432'')
   \<and> fst (fst (getActiveParticipantCountEnhanced ''s2'' False False stormy Map.empty example_db)) = QCount 0
   \<and> handleParticipantJoined ''s2'' ''p1'' (Some ''ROOM02'') (Some (Error ''connect ECONNREFUSED 127.0.0.1:5432''))
        example_db init_realtime = init_realtime
   \<and> handleParticipantJoined ''s2'' ''p1'' (Some ''ROOM02'') None example_db init_realtime
        = do_emit (Emit (Room ''s2'') (participant_joined ''p1'' (Some ''ROOM02'') 1)) init_realtime"
proof -
  let ?e = "Error ''connect ECONNREFUSED 127.0.0.1:5432''"
  note t = failed_count_is_not_broadcast [of "''s2''" False False stormy Map.empty example_db ?e
             "''p1''" "Some ''ROOM02''" init_realtime]
  have r: "retry_from (db_retry_config no_options) (participant_count_fn ''s2'') stormy 0 None example_db
          = ((Inl ?e, example_db), [Inl ?e, Inl ?e, Inl ?e])"
    by (rule retry_from_stormy) (simp_all add: stormy_count_fn db_retry_config_def no_options_def)
  have q: "fst (fst (query ''participant-count'' (participant_count_fn ''s2'') no_options
               False False stormy Map.empty example_db)) = Inl ?e"
    using r by (simp add: query_def breaker_for_def retryWithBackoff_def Let_def)
  from t have 1: "fst (fst (query ''participant-count'' (participant_count_fn ''s2'') no_options
               False False stormy Map.empty example_db)) = Inl ?e
      \<longrightarrow> fst (fst (getActiveParticipantCountEnhanced ''s2'' False False stormy Map.empty example_db)) = QCount 0"
    by (rule conjunct1)
  from 1 q have 2: "fst (fst (getActiveParticipantCountEnhanced ''s2'' False False stormy Map.empty example_db)) = QCount 0"
    by (rule mp)
  from t have 3: "handleParticipantJoined ''s2'' ''p1'' (Some ''ROOM02'') (Some ?e) example_db init_realtime = init_realtime"
    by (rule conjunct2 [THEN conjunct2, THEN conjunct1])
  from t have 4: "handleParticipantJoined ''s2'' ''p1'' (Some ''ROOM02'') None example_db init_realtime
        = do_emit (Emit (Room ''s2'') (participant_joined ''p1'' (Some ''ROOM02'') (active_count example_db ''s2''))) init_realtime"
    by (rule conjunct2 [THEN conjunct2, THEN conjunct2, THEN conjunct2, THEN conjunct1])
  show ?thesis
    using q 2 3 4 [unfolded bob_is_active] by (intro conjI)
qed

text \<open>
  The counterexample to claim C10 as stated: the second room has one active participant
  and the storage refuses every connection. The enhanced count is 0, and no handler of
  either realtime service broadcasts anything.
\<close>

theorem zero_count_broadcast_counterexample:
  "active_count example_db ''s2'' = 1
   \<and> fst (getActiveParticipantCountEnhanced ''s2'' False False stormy Map.empty example_db) = (QCount 0, example_db)
   \<and> emitted (handleParticipantJoined ''s2'' ''p1'' (Some ''ROOM02'') (at_fault (stormy 0)) example_db init_realtime) = []
   \<and> emitted (handleParticipantLeft ''s2'' ''p1'' (Some ''ROOM02'') (at_fault (stormy 0)) example_db init_realtime) = []
   \<and> emitted (secure_connect 7 ''s2'' ''p1'' ''ROOM02'' (at_fault (stormy 0)) example_db init_realtime) = []
   \<and> emitted (first_on 0 7 (join_room ''s2'' ''p1'') (at_fault (stormy 0)) example_db init_realtime) = []
   \<and> emitted (handleParticipantJoined ''s2'' ''p1'' (Some ''ROOM02'') None example_db init_realtime)
       = [Emit (Room ''s2'') (participant_joined ''p1'' (Some ''ROOM02'') 1)]"
proof -
  have f: "at_fault (stormy 0) = Some (Error ''connect ECONNREFUSED 127.0.0.1:5432'')"
    by (simp add: stormy_def)
  have g: "getActiveParticipantCount ''s2'' (at_fault (stormy 0)) example_db = Inl (Error ''connect ECONNREFUSED 127.0.0.1:5432'')"
    by (simp add: f getActiveParticipantCount_def)
  have 2: "fst (getActiveParticipantCountEnhanced ''s2'' False False stormy Map.empty example_db) = (QCount 0, example_db)"
    by (simp add: stormy_count)
  have 3: "emitted (handleParticipantJoined ''s2'' ''p1'' (Some ''ROOM02'') (at_fault (stormy 0)) example_db init_realtime) = []"
    by (simp add: handleParticipantJoined_def g init_realtime_def)
  have 4: "emitted (handleParticipantLeft ''s2'' ''p1'' (Some ''ROOM02'') (at_fault (stormy 0)) example_db init_realtime) = []"
    by (simp add: handleParticipantLeft_def g init_realtime_def)
  have 5: "emitted (secure_connect 7 ''s2'' ''p1'' ''ROOM02'' (at_fault (stormy 0)) example_db init_realtime) = []"
    by (simp add: secure_connect_def handleParticipantJoined_def g init_realtime_def socket_join_def Let_def)
  have 6: "emitted (first_on 0 7 (join_room ''s2'' ''p1'') (at_fault (stormy 0)) example_db init_realtime) = []"
    by (simp add: first_on_def g init_realtime_def socket_join_def Let_def)
  have 7: "emitted (handleParticipantJoined ''s2'' ''p1'' (Some ''ROOM02'') None example_db init_realtime)
       = [Emit (Room ''s2'') (participant_joined ''p1'' (Some ''ROOM02'') 1)]"
    by (simp add: handleParticipantJoined_def getActiveParticipantCount_def bob_is_active do_emit_def init_realtime_def)
  show ?thesis
    using bob_is_active 2 3 4 5 6 7 by (intro conjI)
qed

section \<open>Properties of the countdown timers\<close>

lemma inv_init: "timers_inv init_realtime"
  by (simp add: timers_inv_def init_realtime_def)

lemma inv_do_emit: "timers_inv (do_emit e rt) = timers_inv rt"
  by (simp add: timers_inv_def do_emit_def)

lemma inv_socket_join: "timers_inv (socket_join s r rt) = timers_inv rt"
  by (simp add: timers_inv_def socket_join_def)

lemma inv_socket_leave: "timers_inv (socket_leave s r rt) = timers_inv rt"
  by (simp add: timers_inv_def socket_leave_def)

lemma inv_socket_data: "timers_inv (rt\<lparr>socket_data := x\<rparr>) = timers_inv rt"
  by (simp add: timers_inv_def)

lemma startTimer_next: "next_handle (startTimer vol now sid scid dur rt) = Suc (next_handle rt)"
  by (simp add: startTimer_def setInterval_def do_emit_def clearInterval_def split: option.splits)

lemma startTimer_map:
  "map_of (sessionTimers (startTimer vol now sid scid dur rt))
     = (map_of (sessionTimers rt))(timerKey sid scid \<mapsto> next_handle rt)"
  by (simp add: startTimer_def setInterval_def do_emit_def clearInterval_def update_conv' split: option.splits)

lemma startTimer_intervals:
  "intervals (startTimer vol now sid scid dur rt)
     = (case map_of (sessionTimers rt) (timerKey sid scid) of
          Some ex \<Rightarrow> (intervals rt)(ex := None)
        | None \<Rightarrow> intervals rt)
       (next_handle rt \<mapsto> \<lparr>iv_sessionId = sid, iv_scenarioId = scid, secondsRemaining = dur, iv_volatile = vol\<rparr>)"
  by (simp add: startTimer_def setInterval_def do_emit_def clearInterval_def split: option.splits)

lemma inv_startTimer:
  assumes inv: "timers_inv rt"
  shows "timers_inv (startTimer vol now sid scid dur rt)"
proof -
  let ?rt = "startTimer vol now sid scid dur rt"
  let ?k = "timerKey sid scid"
  from inv have a: "\<And>h iv. intervals rt h = Some iv \<Longrightarrow> map_of (sessionTimers rt) (key_of iv) = Some h"
    and b: "\<And>h. next_handle rt \<le> h \<Longrightarrow> intervals rt h = None"
    and c: "\<And>k h. map_of (sessionTimers rt) k = Some h \<Longrightarrow> h < next_handle rt"
    by (auto simp: timers_inv_def)
  have 1: "map_of (sessionTimers ?rt) (key_of iv) = Some h" if h: "intervals ?rt h = Some iv" for h iv
  proof (cases "h = next_handle rt")
    case True
    with h have "key_of iv = ?k"
      by (auto simp: startTimer_intervals key_of_def)
    with True show ?thesis by (simp add: startTimer_map)
  next
    case False
    with h have old: "intervals rt h = Some iv"
      by (auto simp: startTimer_intervals split: option.splits if_splits)
    then have m: "map_of (sessionTimers rt) (key_of iv) = Some h" by (rule a)
    have "key_of iv \<noteq> ?k"
    proof
      assume e: "key_of iv = ?k"
      with m have "map_of (sessionTimers rt) ?k = Some h" by simp
      with h False show False
        by (simp add: startTimer_intervals)
    qed
    with m show ?thesis by (simp add: startTimer_map)
  qed
  have 2: "intervals ?rt h = None" if "next_handle ?rt \<le> h" for h
    using that b [of h] by (auto simp: startTimer_intervals startTimer_next split: option.splits)
  have 3: "h < next_handle ?rt" if "map_of (sessionTimers ?rt) k = Some h" for k h
    using that c [of k h] by (auto simp: startTimer_map startTimer_next split: if_splits)
  show ?thesis
    unfolding timers_inv_def using 1 2 3 by blast
qed

lemma tick_next: "next_handle (tick h rt) = next_handle rt"
  by (simp add: tick_def Let_def do_emit_def clearInterval_def split: option.splits)

lemma inv_tick:
  assumes inv: "timers_inv rt"
  shows "timers_inv (tick h rt)"
proof (cases "intervals rt h")
  case None
  then show ?thesis using inv by (simp add: tick_def)
next
  case (Some iv)
  from inv have a: "\<And>h iv. intervals rt h = Some iv \<Longrightarrow> map_of (sessionTimers rt) (key_of iv) = Some h"
    and b: "\<And>h. next_handle rt \<le> h \<Longrightarrow> intervals rt h = None"
    and c: "\<And>k h. map_of (sessionTimers rt) k = Some h \<Longrightarrow> h < next_handle rt"
    by (auto simp: timers_inv_def)
  have kh: "map_of (sessionTimers rt) (key_of iv) = Some h" using a Some by simp
  show ?thesis
  proof (cases "secondsRemaining iv - 1 \<le> 0")
    case True
    then have i: "intervals (tick h rt) = (intervals rt)(h := None)"
      and m: "map_of (sessionTimers (tick h rt)) = (map_of (sessionTimers rt))(key_of iv := None)"
      using Some by (simp_all add: tick_def Let_def do_emit_def clearInterval_def delete_conv' key_of_def)
    have 1: "map_of (sessionTimers (tick h rt)) (key_of iv') = Some h'"
      if h: "intervals (tick h rt) h' = Some iv'" for h' iv'
    proof -
      from h i have ne: "h' \<noteq> h" and old: "intervals rt h' = Some iv'" by (auto split: if_splits)
      from a [OF old] have m': "map_of (sessionTimers rt) (key_of iv') = Some h'" .
      with kh ne have "key_of iv' \<noteq> key_of iv" by auto
      with m' show ?thesis by (simp add: m)
    qed
    have 2: "intervals (tick h rt) h' = None" if "next_handle (tick h rt) \<le> h'" for h'
      using that b [of h'] by (simp add: i tick_next)
    have 3: "h' < next_handle (tick h rt)" if "map_of (sessionTimers (tick h rt)) k = Some h'" for k h'
      using that c [of k h'] by (auto simp: m tick_next split: if_splits)
    show ?thesis unfolding timers_inv_def using 1 2 3 by blast
  next
    case False
    then have i: "intervals (tick h rt) = (intervals rt)(h \<mapsto> iv\<lparr>secondsRemaining := secondsRemaining iv - 1\<rparr>)"
      and m: "sessionTimers (tick h rt) = sessionTimers rt"
      using Some by (simp_all add: tick_def Let_def do_emit_def)
    have 1: "map_of (sessionTimers (tick h rt)) (key_of iv') = Some h'"
      if h: "intervals (tick h rt) h' = Some iv'" for h' iv'
    proof (cases "h' = h")
      case True
      with h i have "key_of iv' = key_of iv" by (auto simp: key_of_def)
      with kh True show ?thesis by (simp add: m)
    next
      case False
      with h i have "intervals rt h' = Some iv'" by simp
      from a [OF this] show ?thesis by (simp add: m)
    qed
    have 2: "intervals (tick h rt) h' = None" if "next_handle (tick h rt) \<le> h'" for h'
    proof -
      from that have le: "next_handle rt \<le> h'" by (simp add: tick_next)
      from b [OF le] Some have "h' \<noteq> h" by auto
      with b [OF le] show ?thesis by (simp add: i)
    qed
    have 3: "h' < next_handle (tick h rt)" if "map_of (sessionTimers (tick h rt)) k = Some h'" for k h'
      using that c [of k h'] by (simp add: m tick_next)
    show ?thesis unfolding timers_inv_def using 1 2 3 by blast
  qed
qed


lemma clear_step_True:
  "startsWith k' sid \<Longrightarrow> clear_step sid (k', h') r
     = r\<lparr>intervals := (intervals r)(h' := None), sessionTimers := AList.delete k' (sessionTimers r)\<rparr>"
  by (simp add: clear_step_def clearInterval_def)

lemma clear_step_False: "\<not> startsWith k' sid \<Longrightarrow> clear_step sid (k', h') r = r"
  by (simp add: clear_step_def)

lemma fold_clear_next: "next_handle (fold (clear_step sid) xs r) = next_handle r"
proof (induction xs arbitrary: r)
  case Nil
  show ?case by simp
next
  case (Cons x xs)
  obtain k' h' where x: "x = (k', h')" by (cases x)
  show ?case
    by (cases "startsWith k' sid") (simp_all add: Cons.IH x clear_step_True clear_step_False)
qed

lemma fold_clear_intervals:
  "intervals (fold (clear_step sid) xs r) h
      = (if \<exists>k. (k, h) \<in> set xs \<and> startsWith k sid then None else intervals r h)"
proof (induction xs arbitrary: r)
  case Nil
  show ?case by simp
next
  case (Cons x xs)
  obtain k' h' where x: "x = (k', h')" by (cases x)
  show ?case
  proof (cases "startsWith k' sid")
    case True
    have "intervals (fold (clear_step sid) (x # xs) r) h
            = (if \<exists>k. (k, h) \<in> set xs \<and> startsWith k sid then None else ((intervals r)(h' := None)) h)"
      using True by (auto simp: Cons.IH x clear_step_True)
    also have "\<dots> = (if \<exists>k. (k, h) \<in> set (x # xs) \<and> startsWith k sid then None else intervals r h)"
      using True x by auto
    finally show ?thesis .
  next
    case False
    have "intervals (fold (clear_step sid) (x # xs) r) h
            = (if \<exists>k. (k, h) \<in> set xs \<and> startsWith k sid then None else intervals r h)"
      using False by (auto simp: Cons.IH x clear_step_False)
    also have "\<dots> = (if \<exists>k. (k, h) \<in> set (x # xs) \<and> startsWith k sid then None else intervals r h)"
      using False x by auto
    finally show ?thesis .
  qed
qed

lemma fold_clear_map:
  "map_of (sessionTimers (fold (clear_step sid) xs r)) k
      = (if startsWith k sid \<and> k \<in> fst ` set xs then None else map_of (sessionTimers r) k)"
proof (induction xs arbitrary: r)
  case Nil
  show ?case by simp
next
  case (Cons x xs)
  obtain k' h' where x: "x = (k', h')" by (cases x)
  show ?case
  proof (cases "startsWith k' sid")
    case True
    have "map_of (sessionTimers (fold (clear_step sid) (x # xs) r)) k
            = (if startsWith k sid \<and> k \<in> fst ` set xs then None
               else ((map_of (sessionTimers r))(k' := None)) k)"
      using True by (auto simp: Cons.IH x clear_step_True delete_conv')
    also have "\<dots> = (if startsWith k sid \<and> k \<in> fst ` set (x # xs) then None else map_of (sessionTimers r) k)"
      using True x by auto
    finally show ?thesis .
  next
    case False
    have "map_of (sessionTimers (fold (clear_step sid) (x # xs) r)) k
            = (if startsWith k sid \<and> k \<in> fst ` set xs then None else map_of (sessionTimers r) k)"
      using False by (auto simp: Cons.IH x clear_step_False)
    also have "\<dots> = (if startsWith k sid \<and> k \<in> fst ` set (x # xs) then None else map_of (sessionTimers r) k)"
      using False x by auto
    finally show ?thesis .
  qed
qed

lemma clearSessionTimers_fold: "clearSessionTimers sid rt = fold (clear_step sid) (sessionTimers rt) rt"
  by (simp add: clearSessionTimers_def clear_step_def)

lemma inv_clearSessionTimers:
  assumes inv: "timers_inv rt"
  shows "timers_inv (clearSessionTimers sid rt)"
proof -
  let ?rt = "clearSessionTimers sid rt"
  from inv have a: "\<And>h iv. intervals rt h = Some iv \<Longrightarrow> map_of (sessionTimers rt) (key_of iv) = Some h"
    and b: "\<And>h. next_handle rt \<le> h \<Longrightarrow> intervals rt h = None"
    and c: "\<And>k h. map_of (sessionTimers rt) k = Some h \<Longrightarrow> h < next_handle rt"
    by (auto simp: timers_inv_def)
  have i: "intervals ?rt h = (if \<exists>k. (k, h) \<in> set (sessionTimers rt) \<and> startsWith k sid then None else intervals rt h)" for h
    by (simp only: clearSessionTimers_fold fold_clear_intervals)
  have m: "map_of (sessionTimers ?rt) k = (if startsWith k sid \<and> k \<in> fst ` set (sessionTimers rt) then None else map_of (sessionTimers rt) k)" for k
    by (simp only: clearSessionTimers_fold fold_clear_map)
  have n: "next_handle ?rt = next_handle rt"
    by (simp only: clearSessionTimers_fold fold_clear_next)
  have 1: "map_of (sessionTimers ?rt) (key_of iv) = Some h" if h: "intervals ?rt h = Some iv" for h iv
  proof -
    from h i [of h] have old: "intervals rt h = Some iv"
      and nc: "\<not> (\<exists>k. (k, h) \<in> set (sessionTimers rt) \<and> startsWith k sid)"
      by (auto split: if_splits)
    from a [OF old] have mo: "map_of (sessionTimers rt) (key_of iv) = Some h" .
    then have "(key_of iv, h) \<in> set (sessionTimers rt)" by (rule map_of_SomeD)
    with nc have "\<not> startsWith (key_of iv) sid" by blast
    with mo show ?thesis by (simp add: m)
  qed
  have 2: "intervals ?rt h = None" if "next_handle ?rt \<le> h" for h
    using that b [of h] by (simp add: i n)
  have 3: "h < next_handle ?rt" if "map_of (sessionTimers ?rt) k = Some h" for k h
    using that c [of k h] by (auto simp: m n split: if_splits)
  show ?thesis unfolding timers_inv_def using 1 2 3 by blast
qed

lemma inv_getCount:
  "timers_inv rt \<Longrightarrow> timers_inv (handleParticipantJoined s p r f d rt)"
  "timers_inv rt \<Longrightarrow> timers_inv (handleParticipantLeft s p r f d rt)"
  by (auto simp: handleParticipantJoined_def handleParticipantLeft_def inv_do_emit split: sum.splits)

lemma inv_first_on:
  assumes "timers_inv rt"
  shows "timers_inv (first_on now sock msg fault d rt)"
  using assms
  by (cases msg)
     (auto simp: first_on_def inv_do_emit inv_socket_join inv_socket_leave inv_socket_data
                 inv_startTimer inv_clearSessionTimers Let_def
           split: sum.splits option.splits)

lemma inv_secure_on:
  assumes "timers_inv rt"
  shows "timers_inv (secure_on scrub now sock msg fault d rt)"
  using assms
  by (cases msg)
     (auto simp: secure_on_def unauthorized_def inv_do_emit inv_socket_join inv_socket_leave inv_socket_data
                 inv_startTimer inv_clearSessionTimers inv_getCount Let_def
           split: sum.splits option.splits)

lemma inv_secure_connect:
  assumes "timers_inv rt"
  shows "timers_inv (secure_connect sock sid pid rc fault d rt)"
  using assms
  by (auto simp: secure_connect_def inv_getCount inv_socket_join inv_socket_data Let_def)

lemma reachable_inv: "reachable sec rt \<Longrightarrow> timers_inv rt"
  by (induction rule: reachable.induct)
     (simp_all add: inv_init inv_first_on inv_secure_connect inv_secure_on inv_tick)

text \<open>
  Claim C8. For every (session, scenario) timer key at most one countdown timer exists
  at any instant: in every state a service reaches, two intervals that are set and
  have the same key are the same interval; and starting a timer for a key that has a
  running timer clears that timer before the new one is registered, so the old timer
  is no longer set and firing it changes nothing (it emits no tick).
\<close>

theorem one_timer_per_key:
  assumes "reachable sec rt"
  shows "(\<forall>h1 h2 iv1 iv2. intervals rt h1 = Some iv1 \<and> intervals rt h2 = Some iv2
             \<and> timerKey (iv_sessionId iv1) (iv_scenarioId iv1) = timerKey (iv_sessionId iv2) (iv_scenarioId iv2)
             \<longrightarrow> h1 = h2)
       \<and> (\<forall>existingTimer. map_of (sessionTimers rt) (timerKey sessionId scenarioId) = Some existingTimer
             \<longrightarrow> intervals (startTimer vol now sessionId scenarioId duration rt) existingTimer = None
               \<and> tick existingTimer (startTimer vol now sessionId scenarioId duration rt)
                   = startTimer vol now sessionId scenarioId duration rt)"
proof -
  from assms have inv: "timers_inv rt" by (rule reachable_inv)
  then have a: "\<And>h iv. intervals rt h = Some iv \<Longrightarrow> map_of (sessionTimers rt) (key_of iv) = Some h"
    and c: "\<And>k h. map_of (sessionTimers rt) k = Some h \<Longrightarrow> h < next_handle rt"
    by (auto simp: timers_inv_def)
  have 1: "h1 = h2" if "intervals rt h1 = Some iv1" "intervals rt h2 = Some iv2" "key_of iv1 = key_of iv2"
    for h1 h2 iv1 iv2
    using a [OF that(1)] a [OF that(2)] that(3) by simp
  have 2: "intervals (startTimer vol now sessionId scenarioId duration rt) ex = None"
    if "map_of (sessionTimers rt) (timerKey sessionId scenarioId) = Some ex" for ex
    using that c [OF that] by (simp add: startTimer_intervals)
  have 3: "tick ex (startTimer vol now sessionId scenarioId duration rt)
             = startTimer vol now sessionId scenarioId duration rt"
    if "map_of (sessionTimers rt) (timerKey sessionId scenarioId) = Some ex" for ex
    using 2 [OF that] by (simp add: tick_def)
  show ?thesis using 1 2 3 unfolding key_of_def by blast
qed

theorem one_timer_per_key_witness:
  "reachable False (first_on 0 7 (start_timer ''s1'' ''c1'' 30) None empty_db init_realtime)
   \<and> map_of (sessionTimers (first_on 0 7 (start_timer ''s1'' ''c1'' 30) None empty_db init_realtime))
        (timerKey ''s1'' ''c1'') = Some 0
   \<and> intervals (startTimer False 5 ''s1'' ''c1'' 20
                  (first_on 0 7 (start_timer ''s1'' ''c1'' 30) None empty_db init_realtime)) 0 = None
   \<and> tick 0 (startTimer False 5 ''s1'' ''c1'' 20
                  (first_on 0 7 (start_timer ''s1'' ''c1'' 30) None empty_db init_realtime))
       = startTimer False 5 ''s1'' ''c1'' 20
                  (first_on 0 7 (start_timer ''s1'' ''c1'' 30) None empty_db init_realtime)"
proof -
  let ?w = "first_on 0 7 (start_timer ''s1'' ''c1'' 30) None empty_db init_realtime"
  have r: "reachable False ?w"
    by (rule reachable.first_message) (rule reachable.start)
  have m: "map_of (sessionTimers ?w) (timerKey ''s1'' ''c1'') = Some 0"
    by (simp add: first_on_def startTimer_map init_realtime_def)
  from one_timer_per_key [OF r, of "''s1''" "''c1''" False 5 20] m r show ?thesis
    by blast
qed

section \<open>Properties of a countdown's expiry\<close>

lemma fires_0: "fires 0 h rt = rt"
  by (simp add: fires_def)

lemma fires_Suc: "fires (Suc k) h rt = tick h (fires k h rt)"
  by (simp add: fires_def)

lemma countdown_Suc:
  "countdown vol sid scid dur (Suc k) = countdown vol sid scid dur k @ [tick_emit vol sid scid (dur - 1 - int k)]"
  by (simp add: countdown_def)

lemma tick_running:
  assumes "intervals rt h = Some iv" and "1 < secondsRemaining iv"
  shows "tick h rt = rt\<lparr>intervals := (intervals rt)(h \<mapsto> iv\<lparr>secondsRemaining := secondsRemaining iv - 1\<rparr>),
                        emitted := emitted rt @ [tick_emit (iv_volatile iv) (iv_sessionId iv) (iv_scenarioId iv)
                                                   (secondsRemaining iv - 1)]\<rparr>"
  using assms by (simp add: tick_def Let_def do_emit_def tick_emit_def)

lemma tick_expiring:
  assumes "intervals rt h = Some iv" and "secondsRemaining iv \<le> 1"
  shows "tick h rt = rt\<lparr>intervals := (intervals rt)(h := None),
                        emitted := emitted rt @ [tick_emit (iv_volatile iv) (iv_sessionId iv) (iv_scenarioId iv)
                                                   (secondsRemaining iv - 1)],
                        sessionTimers := AList.delete (timerKey (iv_sessionId iv) (iv_scenarioId iv))
                                           (sessionTimers rt)\<rparr>"
  using assms by (simp add: tick_def Let_def do_emit_def tick_emit_def clearInterval_def)

lemma tick_cleared: "intervals rt h = None \<Longrightarrow> tick h rt = rt"
  by (simp add: tick_def)

lemma fires_running:
  assumes "intervals rt h = Some iv" and "int k < secondsRemaining iv"
  shows "fires k h rt
           = rt\<lparr>intervals := (intervals rt)(h \<mapsto> iv\<lparr>secondsRemaining := secondsRemaining iv - int k\<rparr>),
                 emitted := emitted rt @ countdown (iv_volatile iv) (iv_sessionId iv) (iv_scenarioId iv)
                                           (secondsRemaining iv) k\<rparr>"
  using assms
proof (induction k)
  case 0
  from 0(1) have e: "(intervals rt)(h \<mapsto> iv) = intervals rt" by (rule map_upd_triv)
  show ?case by (simp add: fires_0 countdown_def e)
next
  case (Suc k)
  let ?iv = "iv\<lparr>secondsRemaining := secondsRemaining iv - int k\<rparr>"
  let ?rt = "rt\<lparr>intervals := (intervals rt)(h \<mapsto> ?iv),
                 emitted := emitted rt @ countdown (iv_volatile iv) (iv_sessionId iv) (iv_scenarioId iv)
                                           (secondsRemaining iv) k\<rparr>"
  have lt: "int k < secondsRemaining iv" using Suc.prems(2) by simp
  have ih: "fires k h rt = ?rt" by (rule Suc.IH [OF Suc.prems(1) lt])
  have i: "intervals ?rt h = Some ?iv" by simp
  have s: "1 < secondsRemaining ?iv" using Suc.prems by simp
  have "fires (Suc k) h rt = tick h ?rt" by (simp only: fires_Suc ih)
  also have "\<dots> = ?rt\<lparr>intervals := (intervals ?rt)(h \<mapsto> ?iv\<lparr>secondsRemaining := secondsRemaining ?iv - 1\<rparr>),
                        emitted := emitted ?rt @ [tick_emit (iv_volatile ?iv) (iv_sessionId ?iv) (iv_scenarioId ?iv)
                                                   (secondsRemaining ?iv - 1)]\<rparr>"
    by (rule tick_running [OF i s])
  also have "\<dots> = rt\<lparr>intervals := (intervals rt)(h \<mapsto> iv\<lparr>secondsRemaining := secondsRemaining iv - int (Suc k)\<rparr>),
                 emitted := emitted rt @ countdown (iv_volatile iv) (iv_sessionId iv) (iv_scenarioId iv)
                                           (secondsRemaining iv) (Suc k)\<rparr>"
    by (simp add: countdown_Suc algebra_simps)
  finally show ?case .
qed

lemma fires_expired:
  assumes i: "intervals rt h = Some iv" and k: "int (Suc k) = secondsRemaining iv"
  shows "fires (Suc k) h rt
           = rt\<lparr>intervals := (intervals rt)(h := None),
                 emitted := emitted rt @ countdown (iv_volatile iv) (iv_sessionId iv) (iv_scenarioId iv)
                                           (secondsRemaining iv) (Suc k),
                 sessionTimers := AList.delete (timerKey (iv_sessionId iv) (iv_scenarioId iv)) (sessionTimers rt)\<rparr>"
proof -
  let ?iv = "iv\<lparr>secondsRemaining := secondsRemaining iv - int k\<rparr>"
  let ?rt = "rt\<lparr>intervals := (intervals rt)(h \<mapsto> ?iv),
                 emitted := emitted rt @ countdown (iv_volatile iv) (iv_sessionId iv) (iv_scenarioId iv)
                                           (secondsRemaining iv) k\<rparr>"
  have ih: "fires k h rt = ?rt" using i k by (intro fires_running) simp_all
  have i': "intervals ?rt h = Some ?iv" by simp
  have s: "secondsRemaining ?iv \<le> 1" using k by simp
  have "fires (Suc k) h rt = tick h ?rt" by (simp only: fires_Suc ih)
  also have "\<dots> = ?rt\<lparr>intervals := (intervals ?rt)(h := None),
                        emitted := emitted ?rt @ [tick_emit (iv_volatile ?iv) (iv_sessionId ?iv) (iv_scenarioId ?iv)
                                                   (secondsRemaining ?iv - 1)],
                        sessionTimers := AList.delete (timerKey (iv_sessionId ?iv) (iv_scenarioId ?iv))
                                           (sessionTimers ?rt)\<rparr>"
    by (rule tick_expiring [OF i' s])
  also have "\<dots> = rt\<lparr>intervals := (intervals rt)(h := None),
                 emitted := emitted rt @ countdown (iv_volatile iv) (iv_sessionId iv) (iv_scenarioId iv)
                                           (secondsRemaining iv) (Suc k),
                 sessionTimers := AList.delete (timerKey (iv_sessionId iv) (iv_scenarioId iv)) (sessionTimers rt)\<rparr>"
    by (simp add: countdown_Suc algebra_simps)
  finally show ?thesis .
qed

lemma startTimer_emitted:
  "emitted (startTimer vol now sid scid dur rt)
     = emitted rt @ [Emit (Room sid) (timer_started sid scid dur now)]"
  by (simp add: startTimer_def setInterval_def do_emit_def clearInterval_def split: option.splits)

lemma countdown_last:
  "0 < dur \<Longrightarrow> last (xs @ countdown vol sid scid dur (nat dur)) = tick_emit vol sid scid 0"
proof -
  assume d: "0 < dur"
  then obtain k where k: "nat dur = Suc k" by (cases "nat dur") auto
  with d have "dur - 1 - int k = 0" by linarith
  with k show ?thesis by (simp add: countdown_Suc)
qed

lemma first_timer_expired:
  "fires 2 0 (first_on 21 8 (start_timer ''s2'' ''x'' 2) None example_db init_realtime)
     = init_realtime
         \<lparr>next_handle := Suc 0,
          emitted := [Emit (Room ''s2'') (timer_started ''s2'' ''x'' 2 21),
                      Emit (Room ''s2'') (timer_tick ''s2'' ''x'' 1),
                      Emit (Room ''s2'') (timer_tick ''s2'' ''x'' 0)]\<rparr>"
proof -
  let ?iv = "\<lparr>iv_sessionId = ''s2'', iv_scenarioId = ''x'', secondsRemaining = 2, iv_volatile = False\<rparr>"
  let ?st = "startTimer False 21 ''s2'' ''x'' 2 init_realtime"
  have s: "first_on 21 8 (start_timer ''s2'' ''x'' 2) None example_db init_realtime = ?st"
    by (simp add: first_on_def)
  have i: "intervals ?st 0 = Some ?iv"
    by (simp add: startTimer_intervals init_realtime_def)
  have k: "int (Suc (Suc 0)) = secondsRemaining ?iv" by simp
  have c: "countdown False ''s2'' ''x'' 2 (Suc (Suc 0))
             = [Emit (Room ''s2'') (timer_tick ''s2'' ''x'' 1), Emit (Room ''s2'') (timer_tick ''s2'' ''x'' 0)]"
    by (simp add: countdown_def tick_emit_def)
  have t: "?st = init_realtime
                   \<lparr>sessionTimers := [(timerKey ''s2'' ''x'', 0)], intervals := [0 \<mapsto> ?iv], next_handle := Suc 0,
                    emitted := [Emit (Room ''s2'') (timer_started ''s2'' ''x'' 2 21)]\<rparr>"
    by (simp add: startTimer_def setInterval_def do_emit_def init_realtime_def)
  have "fires (Suc (Suc 0)) 0 ?st
          = ?st\<lparr>intervals := (intervals ?st)(0 := None),
                 emitted := emitted ?st @ countdown (iv_volatile ?iv) (iv_sessionId ?iv) (iv_scenarioId ?iv)
                                            (secondsRemaining ?iv) (Suc (Suc 0)),
                 sessionTimers := AList.delete (timerKey (iv_sessionId ?iv) (iv_scenarioId ?iv)) (sessionTimers ?st)\<rparr>"
    by (rule fires_expired [OF i k])
  also have "\<dots> = init_realtime
         \<lparr>next_handle := Suc 0,
          emitted := [Emit (Room ''s2'') (timer_started ''s2'' ''x'' 2 21),
                      Emit (Room ''s2'') (timer_tick ''s2'' ''x'' 1),
                      Emit (Room ''s2'') (timer_tick ''s2'' ''x'' 0)]\<rparr>"
    by (simp add: c, simp only: t, simp add: init_realtime_def)
  finally show ?thesis
    by (simp add: s numeral_2_eq_2)
qed

lemma vote_after_expiry:
  "fst (submitVote ''s2'' ''p1'' ''x'' ''pull'' None None 40 45 ''v9'' ''r9'' ''m9'' unvoted_db)
     = Inr \<lparr>v_id = ''v9'', v_sessionId = ''s2'', v_participantId = ''p1'', v_scenarioId = ''x'',
            v_vote = Pull, latencyMs = Some 5\<rparr>"
  by (simp add: submitVote_def parse_vote_def insert_vote_def insert_text_def unvoted_db_def running_db_def
                example_db_def room1_def room2_def bob_def Let_def)

lemma vote_after_expiry_enhanced:
  "fst (submitVoteEnhanced (\<lambda>t. t) ''s2'' ''p1'' ''x'' ''pull'' None None 40 45 ''v9'' ''r9'' ''m9'' unvoted_db)
     = Inr \<lparr>v_id = ''v9'', v_sessionId = ''s2'', v_participantId = ''p1'', v_scenarioId = ''x'',
            v_vote = Pull, latencyMs = Some 5\<rparr>"
  by (simp add: submitVoteEnhanced_def parse_vote_def insert_vote_def insert_text_def unvoted_db_def running_db_def
                example_db_def room1_def room2_def bob_def Let_def existingVote_def sanitized_def)

text \<open>
  Claim C2, as amended. A countdown started with a positive duration expires at the
  firing that brings \<open>seconds_remaining\<close> to 0: the broadcasts to the room are
  \<^verbatim>\<open>timer_started\<close> and one \<^verbatim>\<open>timer_tick\<close> a second, the last of them carrying 0 (a
  volatile emit in the secure service), after which the interval is cleared and the key
  is removed from the timer map. A further firing of the expired interval changes
  nothing.

  As stated the claim fails: no event other than the last tick announces the expiry,
  and nothing locks voting (the counterexample follows the witness).
\<close>

theorem countdown_expiry:
  assumes d: "0 < duration"
  shows "emitted (fires (nat duration) (next_handle rt) (startTimer vol now sessionId scenarioId duration rt))
           = emitted rt @ Emit (Room sessionId) (timer_started sessionId scenarioId duration now)
                        # countdown vol sessionId scenarioId duration (nat duration)
         \<and> last (emitted (fires (nat duration) (next_handle rt)
                            (startTimer vol now sessionId scenarioId duration rt)))
             = tick_emit vol sessionId scenarioId 0
         \<and> intervals (fires (nat duration) (next_handle rt) (startTimer vol now sessionId scenarioId duration rt))
             (next_handle rt) = None
         \<and> map_of (sessionTimers (fires (nat duration) (next_handle rt)
                                    (startTimer vol now sessionId scenarioId duration rt)))
             (timerKey sessionId scenarioId) = None
         \<and> tick (next_handle rt)
             (fires (nat duration) (next_handle rt) (startTimer vol now sessionId scenarioId duration rt))
             = fires (nat duration) (next_handle rt) (startTimer vol now sessionId scenarioId duration rt)"
proof -
  let ?st = "startTimer vol now sessionId scenarioId duration rt"
  let ?h = "next_handle rt"
  let ?iv = "\<lparr>iv_sessionId = sessionId, iv_scenarioId = scenarioId, secondsRemaining = duration,
              iv_volatile = vol\<rparr>"
  from d obtain k where k: "nat duration = Suc k" by (cases "nat duration") auto
  have i: "intervals ?st ?h = Some ?iv" by (simp add: startTimer_intervals)
  have ki: "int (Suc k) = secondsRemaining ?iv" using k d by simp
  have f: "fires (nat duration) ?h ?st
             = ?st\<lparr>intervals := (intervals ?st)(?h := None),
                    emitted := emitted ?st @ countdown vol sessionId scenarioId duration (nat duration),
                    sessionTimers := AList.delete (timerKey sessionId scenarioId) (sessionTimers ?st)\<rparr>"
    using fires_expired [OF i ki] by (simp add: k)
  have 1: "emitted (fires (nat duration) ?h ?st)
           = emitted rt @ Emit (Room sessionId) (timer_started sessionId scenarioId duration now)
                        # countdown vol sessionId scenarioId duration (nat duration)"
    by (simp add: f startTimer_emitted)
  have 2: "last (emitted (fires (nat duration) ?h ?st)) = tick_emit vol sessionId scenarioId 0"
    using countdown_last [OF d, of "emitted ?st" vol sessionId scenarioId] by (simp add: f)
  have 3: "intervals (fires (nat duration) ?h ?st) ?h = None"
    by (simp add: f)
  have 4: "map_of (sessionTimers (fires (nat duration) ?h ?st)) (timerKey sessionId scenarioId) = None"
    by (simp add: f delete_conv')
  have 5: "tick ?h (fires (nat duration) ?h ?st) = fires (nat duration) ?h ?st"
    using 3 by (rule tick_cleared)
  show ?thesis
    using 1 2 3 4 5 by (intro conjI)
qed


theorem countdown_expiry_witness:
  "(0::int) < 2
   \<and> emitted (fires 2 0 (startTimer True 21 ''s2'' ''x'' 2 init_realtime))
       = [Emit (Room ''s2'') (timer_started ''s2'' ''x'' 2 21),
          VolatileEmit (Room ''s2'') (timer_tick ''s2'' ''x'' 1),
          VolatileEmit (Room ''s2'') (timer_tick ''s2'' ''x'' 0)]
   \<and> intervals (fires 2 0 (startTimer True 21 ''s2'' ''x'' 2 init_realtime)) 0 = None
   \<and> map_of (sessionTimers (fires 2 0 (startTimer True 21 ''s2'' ''x'' 2 init_realtime))) (timerKey ''s2'' ''x'') = None
   \<and> tick 0 (fires 2 0 (startTimer True 21 ''s2'' ''x'' 2 init_realtime))
       = fires 2 0 (startTimer True 21 ''s2'' ''x'' 2 init_realtime)"
proof -
  have n: "next_handle init_realtime = 0" and e: "emitted init_realtime = []"
    by (simp_all add: init_realtime_def)
  have c: "countdown True ''s2'' ''x'' 2 2
             = [VolatileEmit (Room ''s2'') (timer_tick ''s2'' ''x'' 1),
                VolatileEmit (Room ''s2'') (timer_tick ''s2'' ''x'' 0)]"
    by (simp add: countdown_def tick_emit_def numeral_2_eq_2)
  have p: "(0::int) < 2" by simp
  note t = countdown_expiry [where duration = 2 and rt = init_realtime and vol = True and now = 21
             and sessionId = "''s2''" and scenarioId = "''x''", OF p]
  from t show ?thesis
    by (simp add: n e c)
qed

text \<open>
  The counterexample to claim C2 as stated: socket 8 starts a countdown of 2 seconds for
  scenario \<open>x\<close> of the second room, and the interval fires twice. The room has been sent
  three events, none of them about results, and the vote the participant casts for the
  scenario afterwards is accepted by both room services.
\<close>

theorem expiry_locks_nothing_counterexample:
  "emitted (fires 2 0 (first_on 21 8 (start_timer ''s2'' ''x'' 2) None example_db init_realtime))
     = [Emit (Room ''s2'') (timer_started ''s2'' ''x'' 2 21),
        Emit (Room ''s2'') (timer_tick ''s2'' ''x'' 1),
        Emit (Room ''s2'') (timer_tick ''s2'' ''x'' 0)]
   \<and> fst (submitVote ''s2'' ''p1'' ''x'' ''pull'' None None 40 45 ''v9'' ''r9'' ''m9'' unvoted_db)
       = Inr \<lparr>v_id = ''v9'', v_sessionId = ''s2'', v_participantId = ''p1'', v_scenarioId = ''x'',
              v_vote = Pull, latencyMs = Some 5\<rparr>
   \<and> fst (submitVoteEnhanced (\<lambda>t. t) ''s2'' ''p1'' ''x'' ''pull'' None None 40 45 ''v9'' ''r9'' ''m9'' unvoted_db)
       = Inr \<lparr>v_id = ''v9'', v_sessionId = ''s2'', v_participantId = ''p1'', v_scenarioId = ''x'',
              v_vote = Pull, latencyMs = Some 5\<rparr>"
proof -
  have 1: "emitted (fires 2 0 (first_on 21 8 (start_timer ''s2'' ''x'' 2) None example_db init_realtime))
     = [Emit (Room ''s2'') (timer_started ''s2'' ''x'' 2 21),
        Emit (Room ''s2'') (timer_tick ''s2'' ''x'' 1),
        Emit (Room ''s2'') (timer_tick ''s2'' ''x'' 0)]"
    by (simp add: first_timer_expired)
  show ?thesis
    using 1 vote_after_expiry vote_after_expiry_enhanced by (intro conjI)
qed

end
